theory Spec2Isabelle
  imports Main
begin

section \<open>The MJPEG stream handler of \<^verbatim>\<open>src/src/app_httpd.cpp\<close>\<close>

text \<open>
  The development embeds \<^verbatim>\<open>stream_handler\<close> (lines 50-115 of
  \<^verbatim>\<open>app_httpd.cpp\<close>). The handler is a loop around calls into three libraries
  that are not part of the repository: the camera driver (\<^verbatim>\<open>esp_camera_fb_get\<close>,
  \<^verbatim>\<open>esp_camera_fb_return\<close>), the JPEG converter (\<^verbatim>\<open>frame2jpg\<close>) and the HTTP
  server (\<^verbatim>\<open>httpd_resp_set_type\<close>, \<^verbatim>\<open>httpd_resp_set_hdr\<close>,
  \<^verbatim>\<open>httpd_resp_send_chunk\<close>). What these calls answer is an input of the model
  (a \<open>world\<close>); every call the handler makes is appended, with its arguments and its
  answer, to a trace. The locals of the C function are the fields of a record that
  is passed from statement to statement.
\<close>

subsection \<open>Constants and types of the libraries\<close>

text \<open>
  \<^verbatim>\<open>esp_err_t\<close> is a C \<^verbatim>\<open>int\<close>; \<^verbatim>\<open>esp_err.h\<close> defines \<^verbatim>\<open>ESP_OK\<close> as 0 and
  \<^verbatim>\<open>ESP_FAIL\<close> as -1. The handler only compares and copies such values.
\<close>

type_synonym esp_err_t = int

definition ESP_OK :: esp_err_t where
  "ESP_OK = 0"

definition ESP_FAIL :: esp_err_t where
  "ESP_FAIL = - 1"

text \<open>The pixel formats of \<^verbatim>\<open>sensor.h\<close>; the handler only tests for \<^verbatim>\<open>PIXFORMAT_JPEG\<close>.\<close>

datatype pixformat_t =
    PIXFORMAT_RGB565 | PIXFORMAT_YUV422 | PIXFORMAT_YUV420 | PIXFORMAT_GRAYSCALE
  | PIXFORMAT_JPEG | PIXFORMAT_RGB888 | PIXFORMAT_RAW | PIXFORMAT_RGB444
  | PIXFORMAT_RGB555

text \<open>
  A non-null \<^verbatim>\<open>uint8_t *\<close> is an address; a pointer that may be null is an
  \<open>addr option\<close>, with \<open>None\<close> for \<^verbatim>\<open>NULL\<close>. Sizes (\<^verbatim>\<open>size_t\<close>) and the two
  fields of \<^verbatim>\<open>struct timeval\<close> are never computed with, only copied and printed,
  so they are unbounded numbers here: every value of any machine width is covered.
\<close>

type_synonym addr = nat

record timeval =
  tv_sec :: int
  tv_usec :: int

text \<open>\<^verbatim>\<open>camera_fb_t\<close> of \<^verbatim>\<open>esp_camera.h\<close>.\<close>

record camera_fb_t =
  buf :: addr
  len :: nat
  width :: nat
  height :: nat
  format :: pixformat_t
  timestamp :: timeval

text \<open>
  What one call of \<^verbatim>\<open>frame2jpg(fb, quality, &out, &out_len)\<close> does: it returns
  \<^verbatim>\<open>true\<close> after storing a freshly allocated buffer and its length through the two
  out-pointers, or it returns \<^verbatim>\<open>false\<close> and leaves both untouched.
\<close>

datatype frame2jpg_result = Encoded addr nat | EncodeFailed

subsection \<open>The string constants (lines 20-23)\<close>

definition CR :: char where
  "CR = CHR 0x0D"

definition LF :: char where
  "LF = CHR 0x0A"

definition NUL :: char where
  "NUL = CHR 0x00"

definition PART_BOUNDARY :: string where
  "PART_BOUNDARY = ''123456789000000000000987654321''"

definition STREAM_CONTENT_TYPE :: string where
  "STREAM_CONTENT_TYPE = ''multipart/x-mixed-replace;boundary='' @ PART_BOUNDARY"

definition STREAM_BOUNDARY :: string where
  "STREAM_BOUNDARY = [CR, LF] @ ''--'' @ PART_BOUNDARY @ [CR, LF]"

subsection \<open>Formatting: \<^verbatim>\<open>snprintf\<close> with the format \<^verbatim>\<open>_STREAM_PART\<close>\<close>

definition digit_char :: "nat \<Rightarrow> char" where
  "digit_char d = char_of (48 + d)"

text \<open>The decimal digits of a number, most significant first.\<close>

fun dec_digits :: "nat \<Rightarrow> string" where
  "dec_digits n =
     (if n < 10 then [digit_char n] else dec_digits (n div 10) @ [digit_char (n mod 10)])"

declare dec_digits.simps [simp del]

text \<open>The conversion \<^verbatim>\<open>%u\<close>.\<close>

definition printf_u :: "nat \<Rightarrow> string" where
  "printf_u n = dec_digits n"

text \<open>The conversion \<^verbatim>\<open>%d\<close>.\<close>

definition printf_d :: "int \<Rightarrow> string" where
  "printf_d i = (if i < 0 then ''-'' @ dec_digits (nat (- i)) else dec_digits (nat i))"

text \<open>
  The conversion \<^verbatim>\<open>%06d\<close>: minimum field width 6, filled with zeros that follow
  the sign.
\<close>

definition printf_06d :: "int \<Rightarrow> string" where
  "printf_06d i =
     (let sign = (if i < 0 then ''-'' else '''');
          digits = dec_digits (nat \<bar>i\<bar>)
      in sign @ replicate (6 - (length sign + length digits)) (CHR ''0'') @ digits)"

text \<open>
  \<^verbatim>\<open>_STREAM_PART\<close> (line 23) with its three conversions filled in:
  \<^verbatim>\<open>"Content-Type: image/jpeg\r\nContent-Length: %u\r\nX-Timestamp: %d.%06d\r\n\r\n"\<close>.
\<close>

definition STREAM_PART :: "nat \<Rightarrow> int \<Rightarrow> int \<Rightarrow> string" where
  "STREAM_PART n sec usec =
     ''Content-Type: image/jpeg'' @ [CR, LF] @
     ''Content-Length: '' @ printf_u n @ [CR, LF] @
     ''X-Timestamp: '' @ printf_d sec @ ''.'' @ printf_06d usec @ [CR, LF] @ [CR, LF]"

text \<open>
  \<^verbatim>\<open>snprintf(dst, cap, ...)\<close> for an output \<open>s\<close>: at most \<open>cap - 1\<close> characters
  of \<open>s\<close> and a terminating NUL are stored at the start of the destination, the
  rest of the destination keeps its contents, and the value returned is the length
  of the whole of \<open>s\<close>, whether it fitted or not.
\<close>

definition snprintf :: "string \<Rightarrow> nat \<Rightarrow> string \<Rightarrow> string \<times> nat" where
  "snprintf dst cap s =
     (if cap = 0 then (dst, length s)
      else (let stored = take (cap - 1) s @ [NUL]
            in (stored @ drop (length stored) dst, length s)))"

subsection \<open>The calls the handler makes\<close>

text \<open>
  The first argument of \<^verbatim>\<open>httpd_resp_send_chunk\<close>: the string literal
  \<^verbatim>\<open>_STREAM_BOUNDARY\<close>, the stack buffer \<^verbatim>\<open>part_buf\<close> (with the contents it has
  at the call), or the pointer held in \<^verbatim>\<open>_jpg_buf\<close>.
\<close>

datatype chunk_src = StrLit string | StackBuf string | HeapBuf "addr option"

text \<open>
  One event per library call, in the order of the calls, with the arguments and
  the answer. \<open>FbGet\<close> is \<^verbatim>\<open>esp_camera_fb_get\<close>, \<open>FbReturn\<close> is
  \<^verbatim>\<open>esp_camera_fb_return\<close>, \<open>TaskDelay\<close> is \<^verbatim>\<open>vTaskDelay\<close>. The two
  \<^verbatim>\<open>ESP_LOGE\<close> lines are not recorded.
\<close>

datatype event =
    RespSetType string esp_err_t
  | RespSetHdr string string
  | FbGet "camera_fb_t option"
  | Frame2Jpg camera_fb_t nat frame2jpg_result
  | FbReturn camera_fb_t
  | SendChunk chunk_src nat esp_err_t
  | Free addr
  | TaskDelay

text \<open>
  The answers of the libraries during one pass of the loop. An answer is read
  only if the pass makes the call.
\<close>

record responses =
  r_fb_get :: "camera_fb_t option"
  r_frame2jpg :: frame2jpg_result
  r_send_boundary :: esp_err_t
  r_send_header :: esp_err_t
  r_send_payload :: esp_err_t

text \<open>
  The surroundings of one request: the answer of \<^verbatim>\<open>httpd_resp_set_type\<close>, the
  answers in each pass of the loop, and what the two uninitialised locals
  \<^verbatim>\<open>_timestamp\<close> and \<^verbatim>\<open>part_buf\<close> happen to hold on entry. \<^verbatim>\<open>part_buf\<close>
  is declared \<^verbatim>\<open>char * part_buf[128]\<close>, an array of 128 pointers, of which
  \<^verbatim>\<open>snprintf\<close> is allowed the first 128 bytes; its bytes are a string here.
\<close>

record world =
  r_set_type :: esp_err_t
  passes :: "nat \<Rightarrow> responses"
  stack_timestamp :: timeval
  stack_part_buf :: string

subsection \<open>The handler\<close>

text \<open>
  The locals of \<^verbatim>\<open>stream_handler\<close> (lines 52-57; \<open>timestamp_local\<close> is
  \<^verbatim>\<open>_timestamp\<close>), the trace of the calls made so far, and the value the handler
  has returned, if it has.
\<close>

record state =
  fb :: "camera_fb_t option"
  timestamp_local :: timeval
  res :: esp_err_t
  jpg_buf_len :: nat
  jpg_buf :: "addr option"
  part_buf :: string
  trace :: "event list"
  returned :: "esp_err_t option"

definition call :: "event \<Rightarrow> state \<Rightarrow> state" where
  "call ev s = s\<lparr>trace := trace s @ [ev]\<rparr>"

text \<open>Lines 68-88: acquire a frame and, unless it is JPEG already, encode it.\<close>

definition acquire_frame :: "responses \<Rightarrow> state \<Rightarrow> state" where
  "acquire_frame e s =
     (let s1 = call (FbGet (r_fb_get e)) (s\<lparr>fb := r_fb_get e\<rparr>)
      in case fb s1 of
           None \<Rightarrow> s1\<lparr>res := ESP_FAIL\<rparr>
         | Some f \<Rightarrow>
             (let s2 = s1\<lparr>timestamp_local := timestamp f\<rparr>
              in if format f \<noteq> PIXFORMAT_JPEG then
                   (let s3 = call (Frame2Jpg f 80 (r_frame2jpg e))
                               (case r_frame2jpg e of
                                  Encoded p n \<Rightarrow> s2\<lparr>jpg_buf := Some p, jpg_buf_len := n\<rparr>
                                | EncodeFailed \<Rightarrow> s2);
                        jpeg_converted = (r_frame2jpg e \<noteq> EncodeFailed);
                        s4 = (call (FbReturn f) s3)\<lparr>fb := None\<rparr>
                    in if \<not> jpeg_converted then s4\<lparr>res := ESP_FAIL\<rparr> else s4)
                 else s2\<lparr>jpg_buf_len := len f, jpg_buf := Some (buf f)\<rparr>))"

text \<open>Lines 89-91.\<close>

definition write_boundary :: "responses \<Rightarrow> state \<Rightarrow> state" where
  "write_boundary e s =
     (if res s = ESP_OK then
        (call (SendChunk (StrLit STREAM_BOUNDARY) (length STREAM_BOUNDARY) (r_send_boundary e)) s)
          \<lparr>res := r_send_boundary e\<rparr>
      else s)"

text \<open>Lines 92-95.\<close>

definition write_header :: "responses \<Rightarrow> state \<Rightarrow> state" where
  "write_header e s =
     (if res s = ESP_OK then
        (let (written, hlen) =
               snprintf (part_buf s) 128
                 (STREAM_PART (jpg_buf_len s) (tv_sec (timestamp_local s))
                    (tv_usec (timestamp_local s)));
             s1 = s\<lparr>part_buf := written\<rparr>
         in (call (SendChunk (StackBuf (part_buf s1)) hlen (r_send_header e)) s1)
              \<lparr>res := r_send_header e\<rparr>)
      else s)"

text \<open>Lines 96-98.\<close>

definition write_payload :: "responses \<Rightarrow> state \<Rightarrow> state" where
  "write_payload e s =
     (if res s = ESP_OK then
        (call (SendChunk (HeapBuf (jpg_buf s)) (jpg_buf_len s) (r_send_payload e)) s)
          \<lparr>res := r_send_payload e\<rparr>
      else s)"

text \<open>Lines 99-106.\<close>

definition release_buffers :: "state \<Rightarrow> state" where
  "release_buffers s =
     (case fb s of
        Some f \<Rightarrow> (call (FbReturn f) s)\<lparr>fb := None, jpg_buf := None\<rparr>
      | None \<Rightarrow>
          (case jpg_buf s of
             Some p \<Rightarrow> (call (Free p) s)\<lparr>jpg_buf := None\<rparr>
           | None \<Rightarrow> s))"

text \<open>Lines 68-106: the body of the loop up to the test of \<^verbatim>\<open>res\<close>.\<close>

definition loop_body :: "responses \<Rightarrow> state \<Rightarrow> state" where
  "loop_body e s =
     release_buffers (write_payload e (write_header e (write_boundary e (acquire_frame e s))))"

text \<open>
  Lines 67-114: one pass of \<^verbatim>\<open>while(true)\<close>. Either the pass ends in \<^verbatim>\<open>break\<close>
  and the handler returns \<^verbatim>\<open>res\<close>, or it ends in \<^verbatim>\<open>vTaskDelay\<close> and the loop
  goes round again.
\<close>

definition loop_pass :: "responses \<Rightarrow> state \<Rightarrow> state" where
  "loop_pass e s =
     (let s1 = loop_body e s
      in if res s1 \<noteq> ESP_OK then s1\<lparr>returned := Some (res s1)\<rparr> else call TaskDelay s1)"

text \<open>Lines 52-65: the declarations and the preamble.\<close>

definition handler_entry :: "world \<Rightarrow> state" where
  "handler_entry w =
     (let s0 = \<lparr>fb = None, timestamp_local = stack_timestamp w, res = ESP_OK,
                jpg_buf_len = 0, jpg_buf = None, part_buf = stack_part_buf w,
                trace = [], returned = None\<rparr>;
          s1 = (call (RespSetType STREAM_CONTENT_TYPE (r_set_type w)) s0)\<lparr>res := r_set_type w\<rparr>
      in if res s1 \<noteq> ESP_OK then s1\<lparr>returned := Some (res s1)\<rparr>
         else call (RespSetHdr ''X-Framerate'' ''60'')
                (call (RespSetHdr ''Access-Control-Allow-Origin'' ''*'') s1))"

text \<open>
  The loop may run for ever, so the handler is run for a number of passes:
  \<open>run w n\<close> is the state after the preamble and at most \<open>n\<close> passes of the loop.
  While \<open>returned\<close> is \<open>None\<close> the handler is at the head of the loop, about to
  start pass \<open>n\<close>; once it is \<open>Some r\<close> the handler has returned \<open>r\<close> and
  nothing changes any more.
\<close>

fun run :: "world \<Rightarrow> nat \<Rightarrow> state" where
  "run w 0 = handler_entry w"
| "run w (Suc n) =
     (let s = run w n
      in case returned s of Some r \<Rightarrow> s | None \<Rightarrow> loop_pass (passes w n) s)"

text \<open>What \<^verbatim>\<open>stream_handler\<close> returns, if it returns within \<open>n\<close> passes.\<close>

definition stream_handler :: "world \<Rightarrow> nat \<Rightarrow> esp_err_t option" where
  "stream_handler w n = returned (run w n)"

text \<open>The calls made by pass \<open>k\<close> of the loop, up to the test of \<^verbatim>\<open>res\<close>.\<close>

definition pass_events :: "world \<Rightarrow> nat \<Rightarrow> event list" where
  "pass_events w k =
     drop (length (trace (run w k))) (trace (loop_body (passes w k) (run w k)))"

subsection \<open>Reading a trace\<close>

fun is_send_chunk :: "event \<Rightarrow> bool" where
  "is_send_chunk (SendChunk c n r) = True"
| "is_send_chunk ev = False"

fun is_fb_get :: "event \<Rightarrow> bool" where
  "is_fb_get (FbGet a) = True"
| "is_fb_get ev = False"

fun is_frame2jpg :: "event \<Rightarrow> bool" where
  "is_frame2jpg (Frame2Jpg f q a) = True"
| "is_frame2jpg ev = False"

fun is_fb_return :: "event \<Rightarrow> bool" where
  "is_fb_return (FbReturn f) = True"
| "is_fb_return ev = False"

fun is_free :: "event \<Rightarrow> bool" where
  "is_free (Free p) = True"
| "is_free ev = False"

text \<open>A call of \<^verbatim>\<open>esp_camera_fb_get\<close> that handed out a frame.\<close>

fun is_acquired :: "event \<Rightarrow> bool" where
  "is_acquired (FbGet (Some f)) = True"
| "is_acquired ev = False"

text \<open>A call of \<^verbatim>\<open>frame2jpg\<close> that allocated a buffer.\<close>

fun is_allocated :: "event \<Rightarrow> bool" where
  "is_allocated (Frame2Jpg f q (Encoded p n)) = True"
| "is_allocated ev = False"

text \<open>
  Ownership, read off a trace: the frame and the encoder buffer the handler holds.
  Handing out a frame or a buffer while one of its kind is held, and giving back
  something that is not held, are violations (\<open>None\<close>). A trace that is accepted
  and ends with nothing held has given back each frame and each buffer exactly
  once.
\<close>

fun owner_step :: "event \<Rightarrow> camera_fb_t option \<times> addr option \<Rightarrow>
    (camera_fb_t option \<times> addr option) option" where
  "owner_step (FbGet (Some f)) (hf, hb) = (if hf = None then Some (Some f, hb) else None)"
| "owner_step (Frame2Jpg f q (Encoded p n)) (hf, hb) =
     (if hb = None then Some (hf, Some p) else None)"
| "owner_step (FbReturn f) (hf, hb) = (if hf = Some f then Some (None, hb) else None)"
| "owner_step (Free p) (hf, hb) = (if hb = Some p then Some (hf, None) else None)"
| "owner_step ev h = Some h"

fun owner_run :: "event list \<Rightarrow> camera_fb_t option \<times> addr option \<Rightarrow>
    (camera_fb_t option \<times> addr option) option" where
  "owner_run [] h = Some h"
| "owner_run (ev # evs) h =
     (case owner_step ev h of None \<Rightarrow> None | Some h' \<Rightarrow> owner_run evs h')"

text \<open>
  The answers of a pass, read as the specification reads them. \<open>payload_ready\<close>:
  a frame was acquired and, if it was not JPEG, encoded. \<open>pass_status\<close>: the status
  of the last operation the pass performs, where a failed acquisition or encoding
  counts as \<^verbatim>\<open>ESP_FAIL\<close>. \<open>held_release\<close>: the call that gives back the buffer
  held while the chunks are written.
\<close>

definition payload_ready :: "responses \<Rightarrow> bool" where
  "payload_ready e =
     (case r_fb_get e of
        None \<Rightarrow> False
      | Some f \<Rightarrow> format f = PIXFORMAT_JPEG \<or> r_frame2jpg e \<noteq> EncodeFailed)"

definition pass_status :: "responses \<Rightarrow> esp_err_t" where
  "pass_status e =
     (if \<not> payload_ready e then ESP_FAIL
      else if r_send_boundary e \<noteq> ESP_OK then r_send_boundary e
      else if r_send_header e \<noteq> ESP_OK then r_send_header e
      else r_send_payload e)"

definition held_release :: "responses \<Rightarrow> event option" where
  "held_release e =
     (case r_fb_get e of
        None \<Rightarrow> None
      | Some f \<Rightarrow>
          if format f = PIXFORMAT_JPEG then Some (FbReturn f)
          else (case r_frame2jpg e of Encoded p n \<Rightarrow> Some (Free p) | EncodeFailed \<Rightarrow> None))"

text \<open>The payload the pass has in hand once \<open>payload_ready\<close> holds: pointer and length.\<close>

definition payload_of :: "responses \<Rightarrow> addr option \<times> nat" where
  "payload_of e =
     (case r_fb_get e of
        None \<Rightarrow> (None, 0)
      | Some f \<Rightarrow>
          if format f = PIXFORMAT_JPEG then (Some (buf f), len f)
          else (case r_frame2jpg e of Encoded p n \<Rightarrow> (Some p, n) | EncodeFailed \<Rightarrow> (None, 0)))"

text \<open>A number written with exactly \<open>k\<close> decimal digits, zeros in front.\<close>

fun fixed_digits :: "nat \<Rightarrow> nat \<Rightarrow> string" where
  "fixed_digits 0 n = []"
| "fixed_digits (Suc k) n = fixed_digits k (n div 10) @ [digit_char (n mod 10)]"

subsection \<open>The calls of one pass, listed\<close>

text \<open>
  The calls lines 68-88 make (\<open>acquire_calls\<close>), the chunk writes of lines 89-98
  for a payload \<open>pl\<close> (pointer and length) and a timestamp \<open>ts\<close>, with
  \<open>pb\<close> the contents of \<^verbatim>\<open>part_buf\<close> before the pass (\<open>part_calls\<close>), and
  all the calls of a pass that starts at the head of the loop (\<open>pass_calls\<close>).
  The lemmas \<open>acquire_trace\<close> and \<open>loop_body_trace\<close> below prove that the
  handler makes exactly these calls.
\<close>

definition acquire_calls :: "responses \<Rightarrow> event list" where
  "acquire_calls e =
     (case r_fb_get e of
        None \<Rightarrow> [FbGet None]
      | Some f \<Rightarrow>
          if format f = PIXFORMAT_JPEG then [FbGet (Some f)]
          else [FbGet (Some f), Frame2Jpg f 80 (r_frame2jpg e), FbReturn f])"

definition part_calls :: "string \<Rightarrow> addr option \<times> nat \<Rightarrow> timeval \<Rightarrow> responses \<Rightarrow> event list" where
  "part_calls pb pl ts e =
     SendChunk (StrLit STREAM_BOUNDARY) (length STREAM_BOUNDARY) (r_send_boundary e) #
       (if r_send_boundary e \<noteq> ESP_OK then []
        else SendChunk (StackBuf (fst (snprintf pb 128 (STREAM_PART (snd pl) (tv_sec ts) (tv_usec ts)))))
               (snd (snprintf pb 128 (STREAM_PART (snd pl) (tv_sec ts) (tv_usec ts))))
               (r_send_header e) #
             (if r_send_header e \<noteq> ESP_OK then []
              else [SendChunk (HeapBuf (fst pl)) (snd pl) (r_send_payload e)]))"

definition pass_calls :: "string \<Rightarrow> responses \<Rightarrow> event list" where
  "pass_calls pb e =
     (case r_fb_get e of
        None \<Rightarrow> [FbGet None]
      | Some f \<Rightarrow>
          if format f = PIXFORMAT_JPEG
          then [FbGet (Some f)] @ part_calls pb (Some (buf f), len f) (timestamp f) e @ [FbReturn f]
          else (case r_frame2jpg e of
                  EncodeFailed \<Rightarrow> [FbGet (Some f), Frame2Jpg f 80 EncodeFailed, FbReturn f]
                | Encoded p n \<Rightarrow>
                    [FbGet (Some f), Frame2Jpg f 80 (Encoded p n), FbReturn f] @
                    part_calls pb (Some p, n) (timestamp f) e @ [Free p]))"

text \<open>Reading a decimal numeral back: the number a string of digits denotes.\<close>

definition digit_value :: "char \<Rightarrow> nat" where
  "digit_value c = of_char c - 48"

definition read_dec :: "string \<Rightarrow> nat" where
  "read_dec s = foldl (\<lambda>a c. 10 * a + digit_value c) 0 s"

text \<open>A call that gives a frame or a buffer back.\<close>

fun is_release :: "event \<Rightarrow> bool" where
  "is_release (FbReturn f) = True"
| "is_release (Free p) = True"
| "is_release ev = False"

subsection \<open>Sample requests\<close>

definition jpeg_frame :: camera_fb_t where
  "jpeg_frame = \<lparr>buf = 4096, len = 1200, width = 640, height = 480,
     format = PIXFORMAT_JPEG, timestamp = \<lparr>tv_sec = 12, tv_usec = 345\<rparr>\<rparr>"

definition raw_frame :: camera_fb_t where
  "raw_frame = \<lparr>buf = 8192, len = 614400, width = 640, height = 480,
     format = PIXFORMAT_RGB565, timestamp = \<lparr>tv_sec = 13, tv_usec = 999999\<rparr>\<rparr>"

definition all_ok :: responses where
  "all_ok = \<lparr>r_fb_get = Some jpeg_frame, r_frame2jpg = Encoded 20480 1300,
     r_send_boundary = ESP_OK, r_send_header = ESP_OK, r_send_payload = ESP_OK\<rparr>"

text \<open>A JPEG frame, then a raw frame that is encoded, then no frame.\<close>

definition sample_world :: world where
  "sample_world = \<lparr>r_set_type = ESP_OK,
     passes = (\<lambda>k. if k = 0 then all_ok
                    else if k = 1 then all_ok\<lparr>r_fb_get := Some raw_frame\<rparr>
                    else all_ok\<lparr>r_fb_get := None\<rparr>),
     stack_timestamp = \<lparr>tv_sec = 0, tv_usec = 0\<rparr>,
     stack_part_buf = replicate 512 NUL\<rparr>"

text \<open>No frame in the first pass.\<close>

definition no_frame_world :: world where
  "no_frame_world = sample_world\<lparr>passes := (\<lambda>k. all_ok\<lparr>r_fb_get := None\<rparr>)\<rparr>"

text \<open>A raw frame that the encoder fails on.\<close>

definition encode_fail_world :: world where
  "encode_fail_world = sample_world
     \<lparr>passes := (\<lambda>k. all_ok\<lparr>r_fb_get := Some raw_frame, r_frame2jpg := EncodeFailed\<rparr>)\<rparr>"

text \<open>
  One part goes out; in the second pass the payload write fails with
  \<^verbatim>\<open>ESP_ERR_HTTPD_RESP_SEND\<close> (0xb007).
\<close>

definition send_fail_world :: world where
  "send_fail_world = sample_world
     \<lparr>passes := (\<lambda>k. if k = 0 then all_ok else all_ok\<lparr>r_send_payload := 45063\<rparr>)\<rparr>"

text \<open>\<^verbatim>\<open>httpd_resp_set_type\<close> fails with \<^verbatim>\<open>ESP_ERR_HTTPD_INVALID_REQ\<close> (0xb004).\<close>

definition set_type_fail_world :: world where
  "set_type_fail_world = sample_world\<lparr>r_set_type := 45060\<rparr>"

section \<open>What one pass of the loop does\<close>

lemma ESP_FAIL_not_OK: "ESP_FAIL \<noteq> ESP_OK"
  by (simp add: ESP_FAIL_def ESP_OK_def)

lemma acquire_trace: "trace (acquire_frame e s) = trace s @ acquire_calls e"
  by (simp add: acquire_frame_def acquire_calls_def call_def Let_def
      split: option.split frame2jpg_result.split)

lemma acquire_res:
  "res (acquire_frame e s) = (if payload_ready e then res s else ESP_FAIL)"
  by (simp add: acquire_frame_def payload_ready_def call_def Let_def
      split: option.split frame2jpg_result.split)

lemma acquire_fb:
  "fb (acquire_frame e s) =
     (case r_fb_get e of None \<Rightarrow> None
      | Some f \<Rightarrow> if format f = PIXFORMAT_JPEG then Some f else None)"
  by (simp add: acquire_frame_def call_def Let_def
      split: option.split frame2jpg_result.split)

lemma acquire_payload:
  "payload_ready e \<Longrightarrow>
   (jpg_buf (acquire_frame e s), jpg_buf_len (acquire_frame e s)) = payload_of e"
  by (auto simp add: acquire_frame_def payload_ready_def payload_of_def call_def Let_def
      split: option.splits frame2jpg_result.splits)

lemma acquire_jpg_buf_fail:
  "\<not> payload_ready e \<Longrightarrow> jpg_buf (acquire_frame e s) = jpg_buf s"
  by (auto simp add: acquire_frame_def payload_ready_def call_def Let_def
      split: option.splits frame2jpg_result.splits)

lemma acquire_timestamp:
  "r_fb_get e = Some f \<Longrightarrow> timestamp_local (acquire_frame e s) = timestamp f"
  by (simp add: acquire_frame_def call_def Let_def split: frame2jpg_result.split)

lemma acquire_keeps:
  "part_buf (acquire_frame e s) = part_buf s" "returned (acquire_frame e s) = returned s"
  by (simp_all add: acquire_frame_def call_def Let_def
      split: option.split frame2jpg_result.split)

lemma boundary_trace:
  "trace (write_boundary e s) = trace s @
     (if res s = ESP_OK
      then [SendChunk (StrLit STREAM_BOUNDARY) (length STREAM_BOUNDARY) (r_send_boundary e)]
      else [])"
  by (simp add: write_boundary_def call_def)

lemma boundary_res:
  "res (write_boundary e s) = (if res s = ESP_OK then r_send_boundary e else res s)"
  by (simp add: write_boundary_def call_def)

lemma boundary_keeps:
  "fb (write_boundary e s) = fb s" "jpg_buf (write_boundary e s) = jpg_buf s"
  "jpg_buf_len (write_boundary e s) = jpg_buf_len s"
  "timestamp_local (write_boundary e s) = timestamp_local s"
  "part_buf (write_boundary e s) = part_buf s" "returned (write_boundary e s) = returned s"
  by (simp_all add: write_boundary_def call_def)

lemma header_trace:
  "trace (write_header e s) = trace s @
     (if res s = ESP_OK
      then [SendChunk
              (StackBuf (fst (snprintf (part_buf s) 128
                 (STREAM_PART (jpg_buf_len s) (tv_sec (timestamp_local s))
                    (tv_usec (timestamp_local s))))))
              (snd (snprintf (part_buf s) 128
                 (STREAM_PART (jpg_buf_len s) (tv_sec (timestamp_local s))
                    (tv_usec (timestamp_local s)))))
              (r_send_header e)]
      else [])"
  by (simp add: write_header_def call_def case_prod_beta Let_def)

lemma header_res:
  "res (write_header e s) = (if res s = ESP_OK then r_send_header e else res s)"
  by (simp add: write_header_def call_def case_prod_beta Let_def)

lemma header_keeps:
  "fb (write_header e s) = fb s" "jpg_buf (write_header e s) = jpg_buf s"
  "jpg_buf_len (write_header e s) = jpg_buf_len s"
  "timestamp_local (write_header e s) = timestamp_local s"
  "returned (write_header e s) = returned s"
  by (simp_all add: write_header_def call_def case_prod_beta Let_def)

lemma header_part_buf:
  "part_buf (write_header e s) =
     (if res s = ESP_OK
      then fst (snprintf (part_buf s) 128
                 (STREAM_PART (jpg_buf_len s) (tv_sec (timestamp_local s))
                    (tv_usec (timestamp_local s))))
      else part_buf s)"
  by (simp add: write_header_def call_def case_prod_beta Let_def)

lemma payload_trace:
  "trace (write_payload e s) = trace s @
     (if res s = ESP_OK
      then [SendChunk (HeapBuf (jpg_buf s)) (jpg_buf_len s) (r_send_payload e)]
      else [])"
  by (simp add: write_payload_def call_def)

lemma payload_res:
  "res (write_payload e s) = (if res s = ESP_OK then r_send_payload e else res s)"
  by (simp add: write_payload_def call_def)

lemma payload_keeps:
  "fb (write_payload e s) = fb s" "jpg_buf (write_payload e s) = jpg_buf s"
  "jpg_buf_len (write_payload e s) = jpg_buf_len s"
  "timestamp_local (write_payload e s) = timestamp_local s"
  "part_buf (write_payload e s) = part_buf s" "returned (write_payload e s) = returned s"
  by (simp_all add: write_payload_def call_def)

lemma release_trace:
  "trace (release_buffers s) = trace s @
     (case fb s of Some f \<Rightarrow> [FbReturn f]
      | None \<Rightarrow> (case jpg_buf s of Some p \<Rightarrow> [Free p] | None \<Rightarrow> []))"
  by (simp add: release_buffers_def call_def split: option.split)

lemma release_keeps:
  "res (release_buffers s) = res s" "jpg_buf_len (release_buffers s) = jpg_buf_len s"
  "timestamp_local (release_buffers s) = timestamp_local s"
  "part_buf (release_buffers s) = part_buf s" "returned (release_buffers s) = returned s"
  by (simp_all add: release_buffers_def call_def split: option.split)

lemma release_pointers: "fb (release_buffers s) = None \<and> jpg_buf (release_buffers s) = None"
  by (simp add: release_buffers_def call_def split: option.splits)

lemma loop_body_trace:
  assumes "res s = ESP_OK" and "jpg_buf s = None"
  shows "trace (loop_body e s) = trace s @ pass_calls (part_buf s) e"
proof (cases "r_fb_get e")
  case None
  then show ?thesis
    using assms
    by (simp add: loop_body_def release_trace payload_trace header_trace boundary_trace
        acquire_trace acquire_res acquire_fb acquire_calls_def pass_calls_def payload_ready_def
        acquire_jpg_buf_fail payload_keeps header_keeps boundary_keeps header_res boundary_res
        ESP_FAIL_not_OK)
next
  case (Some f)
  show ?thesis
  proof (cases "payload_ready e")
    case True
    have pl: "jpg_buf (acquire_frame e s) = fst (payload_of e)"
      "jpg_buf_len (acquire_frame e s) = snd (payload_of e)"
      using acquire_payload [OF True, of s] by (simp_all add: prod_eq_iff)
    show ?thesis
      using assms Some True
      by (auto simp add: loop_body_def release_trace payload_trace header_trace boundary_trace
          acquire_trace acquire_res acquire_fb acquire_calls_def pass_calls_def part_calls_def
          payload_ready_def pl acquire_timestamp acquire_keeps payload_of_def
          payload_keeps header_keeps boundary_keeps header_res boundary_res
          split: frame2jpg_result.splits)
  next
    case False
    then show ?thesis
      using assms Some
      by (auto simp add: loop_body_def release_trace payload_trace header_trace boundary_trace
          acquire_trace acquire_res acquire_fb acquire_calls_def pass_calls_def
          payload_ready_def acquire_jpg_buf_fail
          payload_keeps header_keeps boundary_keeps header_res boundary_res ESP_FAIL_not_OK
          split: frame2jpg_result.splits)
  qed
qed

lemma loop_body_res: "res s = ESP_OK \<Longrightarrow> res (loop_body e s) = pass_status e"
  by (simp add: loop_body_def release_keeps payload_res header_res boundary_res acquire_res
      pass_status_def ESP_FAIL_not_OK)

lemma loop_body_pointers: "fb (loop_body e s) = None \<and> jpg_buf (loop_body e s) = None"
  by (simp add: loop_body_def release_pointers)

lemma loop_body_returned: "returned (loop_body e s) = returned s"
  by (simp add: loop_body_def release_keeps payload_keeps header_keeps boundary_keeps
      acquire_keeps)

subsection \<open>The handler at the head of the loop\<close>

lemma entry_pointers: "fb (handler_entry w) = None \<and> jpg_buf (handler_entry w) = None"
  by (simp add: handler_entry_def call_def Let_def)

lemma entry_res: "res (handler_entry w) = r_set_type w"
  by (simp add: handler_entry_def call_def Let_def)

lemma entry_returned:
  "returned (handler_entry w) = (if r_set_type w \<noteq> ESP_OK then Some (r_set_type w) else None)"
  by (simp add: handler_entry_def call_def Let_def)

lemma entry_trace:
  "trace (handler_entry w) =
     (if r_set_type w \<noteq> ESP_OK then [RespSetType STREAM_CONTENT_TYPE (r_set_type w)]
      else [RespSetType STREAM_CONTENT_TYPE (r_set_type w),
            RespSetHdr ''Access-Control-Allow-Origin'' ''*'',
            RespSetHdr ''X-Framerate'' ''60''])"
  by (simp add: handler_entry_def call_def Let_def)

lemma loop_pass_returned:
  "res s = ESP_OK \<Longrightarrow> returned s = None \<Longrightarrow>
   returned (loop_pass e s) =
     (if pass_status e = ESP_OK then None else Some (pass_status e))"
  by (simp add: loop_pass_def Let_def loop_body_res loop_body_returned call_def)

lemma loop_pass_res: "res s = ESP_OK \<Longrightarrow> res (loop_pass e s) = pass_status e"
  by (simp add: loop_pass_def Let_def loop_body_res call_def)

lemma loop_pass_pointers: "fb (loop_pass e s) = None \<and> jpg_buf (loop_pass e s) = None"
  by (simp add: loop_pass_def Let_def loop_body_pointers call_def)

lemma loop_pass_trace:
  "res s = ESP_OK \<Longrightarrow> jpg_buf s = None \<Longrightarrow>
   trace (loop_pass e s) = trace s @ pass_calls (part_buf s) e @
     (if pass_status e = ESP_OK then [TaskDelay] else [])"
  by (simp add: loop_pass_def Let_def loop_body_res loop_body_trace call_def)

lemma run_pointers: "fb (run w n) = None \<and> jpg_buf (run w n) = None"
  by (induction n) (simp_all add: entry_pointers loop_pass_pointers Let_def split: option.split)

lemma run_status:
  "(returned (run w n) = None \<longrightarrow> res (run w n) = ESP_OK) \<and>
   (\<forall>r. returned (run w n) = Some r \<longrightarrow> r \<noteq> ESP_OK \<and> res (run w n) = r)"
proof (induction n)
  case 0
  show ?case by (simp add: entry_returned entry_res)
next
  case (Suc n)
  show ?case
  proof (cases "returned (run w n)")
    case None
    then have "res (run w n) = ESP_OK" using Suc by simp
    then show ?thesis
      using None by (simp add: loop_pass_returned loop_pass_res)
  next
    case (Some r)
    then show ?thesis using Suc by simp
  qed
qed

lemma run_head: "returned (run w n) = None \<Longrightarrow> res (run w n) = ESP_OK"
  using run_status by blast

lemma run_Suc_returned:
  "returned (run w k) = None \<Longrightarrow>
   returned (run w (Suc k)) =
     (if pass_status (passes w k) = ESP_OK then None else Some (pass_status (passes w k)))"
  by (simp add: loop_pass_returned run_head)

lemma run_Suc_trace:
  "returned (run w k) = None \<Longrightarrow>
   trace (run w (Suc k)) = trace (run w k) @ pass_calls (part_buf (run w k)) (passes w k) @
     (if pass_status (passes w k) = ESP_OK then [TaskDelay] else [])"
  by (simp add: loop_pass_trace run_head run_pointers)

lemma pass_events_calls:
  "returned (run w k) = None \<Longrightarrow>
   pass_events w k = pass_calls (part_buf (run w k)) (passes w k)"
  by (simp add: pass_events_def loop_body_trace run_head run_pointers)

lemma run_stable: "returned (run w k) = Some r \<Longrightarrow> run w (k + m) = run w k"
  by (induction m) simp_all

lemma run_all_ok:
  "r_set_type w = ESP_OK \<Longrightarrow> (\<forall>j<n. pass_status (passes w j) = ESP_OK) \<Longrightarrow>
   returned (run w n) = None"
proof (induction n)
  case 0
  then show ?case by (simp add: entry_returned)
next
  case (Suc n)
  then have "returned (run w n) = None" by simp
  then show ?case using Suc.prems by (simp add: run_Suc_returned del: run.simps)
qed

lemma run_first_failure:
  assumes "r_set_type w = ESP_OK" and "\<forall>j<k. pass_status (passes w j) = ESP_OK"
    and "pass_status (passes w k) \<noteq> ESP_OK" and "k < n"
  shows "returned (run w n) = Some (pass_status (passes w k))"
proof -
  have "returned (run w k) = None" using assms(1,2) by (rule run_all_ok)
  then have r: "returned (run w (Suc k)) = Some (pass_status (passes w k))"
    using assms(3) by (simp add: run_Suc_returned del: run.simps)
  obtain m where "n = Suc k + m" using assms(4) less_iff_Suc_add by auto
  then show ?thesis using run_stable [OF r, of m] r by simp
qed

lemma run_set_type_failed:
  "r_set_type w \<noteq> ESP_OK \<Longrightarrow> run w n = handler_entry w"
proof -
  assume "r_set_type w \<noteq> ESP_OK"
  then have "returned (run w 0) = Some (r_set_type w)" by (simp add: entry_returned)
  from run_stable [OF this, of n] show ?thesis by simp
qed


subsection \<open>The sample requests, evaluated\<close>

lemma sample_passes_ok:
  "pass_status (passes sample_world 0) = ESP_OK" "pass_status (passes sample_world 1) = ESP_OK"
  "pass_status (passes sample_world 2) = ESP_FAIL"
  by (simp_all add: sample_world_def all_ok_def pass_status_def payload_ready_def
      jpeg_frame_def raw_frame_def)

lemma sample_set_type: "r_set_type sample_world = ESP_OK"
  by (simp add: sample_world_def)

section \<open>The claims\<close>

text \<open>
  C10. At the head of every pass of the loop (\<open>returned (run w n) = None\<close>) and when
  the handler has returned (\<open>returned (run w n) = Some r\<close>), that is in every state
  \<open>run w n\<close>, both \<^verbatim>\<open>fb\<close> and \<^verbatim>\<open>_jpg_buf\<close> are null.
\<close>

theorem pointers_null_between_passes:
  "fb (run w n) = None \<and> jpg_buf (run w n) = None"
  by (rule run_pointers)

theorem pointers_null_between_passes_witness:
  "returned (run sample_world 2) = None \<and> fb (run sample_world 2) = None \<and>
   jpg_buf (run sample_world 2) = None \<and>
   returned (run sample_world 3) = Some ESP_FAIL \<and> fb (run sample_world 3) = None \<and>
   jpg_buf (run sample_world 3) = None"
proof -
  have "\<forall>j<2. pass_status (passes sample_world j) = ESP_OK"
    using sample_passes_ok by (simp add: less_Suc_eq numeral_2_eq_2)
  then have a: "returned (run sample_world 2) = None"
    using sample_set_type by (simp add: run_all_ok del: run.simps)
  have b: "returned (run sample_world 3) = Some ESP_FAIL"
    using run_Suc_returned [OF a] sample_passes_ok(3) ESP_FAIL_not_OK
    by (simp del: run.simps)
  show ?thesis
    using a b pointers_null_between_passes [of sample_world 2]
      pointers_null_between_passes [of sample_world 3]
    by simp
qed

text \<open>
  C7. The handler never returns \<^verbatim>\<open>ESP_OK\<close>. It returns within \<open>n\<close> passes exactly
  if \<^verbatim>\<open>httpd_resp_set_type\<close> failed, and then it returns that status, or if some
  pass \<open>k < n\<close> is the first in which an operation fails, and then it returns the
  status of the last operation of that pass: \<^verbatim>\<open>ESP_FAIL\<close> for a failed acquisition
  or encoding, the status of the failed chunk write otherwise. While every
  operation succeeds it does not return.
\<close>

theorem handler_returns_only_failure:
  "(stream_handler w n = Some r \<longleftrightarrow>
      (r_set_type w \<noteq> ESP_OK \<and> r = r_set_type w) \<or>
      (r_set_type w = ESP_OK \<and>
       (\<exists>k<n. (\<forall>j<k. pass_status (passes w j) = ESP_OK) \<and>
              pass_status (passes w k) \<noteq> ESP_OK \<and> r = pass_status (passes w k)))) \<and>
   (stream_handler w n = Some r \<longrightarrow> r \<noteq> ESP_OK)"
proof -
  have never_ok: "stream_handler w n = Some r \<longrightarrow> r \<noteq> ESP_OK"
    using run_status [of w n] by (simp add: stream_handler_def)
  have "stream_handler w n = Some r \<longleftrightarrow>
      (r_set_type w \<noteq> ESP_OK \<and> r = r_set_type w) \<or>
      (r_set_type w = ESP_OK \<and>
       (\<exists>k<n. (\<forall>j<k. pass_status (passes w j) = ESP_OK) \<and>
              pass_status (passes w k) \<noteq> ESP_OK \<and> r = pass_status (passes w k)))"
  proof (cases "r_set_type w = ESP_OK")
    case False
    then show ?thesis
      by (auto simp add: stream_handler_def run_set_type_failed entry_returned)
  next
    case True
    show ?thesis
    proof
      assume ret: "stream_handler w n = Some r"
      have "\<exists>k<n. pass_status (passes w k) \<noteq> ESP_OK"
      proof (rule ccontr)
        assume "\<not> (\<exists>k<n. pass_status (passes w k) \<noteq> ESP_OK)"
        then have "\<forall>j<n. pass_status (passes w j) = ESP_OK" by blast
        then have "returned (run w n) = None" using True by (simp add: run_all_ok)
        then show False using ret by (simp add: stream_handler_def)
      qed
      then obtain k where k: "k < n" "pass_status (passes w k) \<noteq> ESP_OK"
        and least: "\<forall>j<k. \<not> (j < n \<and> pass_status (passes w j) \<noteq> ESP_OK)"
        using exists_least_iff [of "\<lambda>k. k < n \<and> pass_status (passes w k) \<noteq> ESP_OK"] by blast
      have before: "\<forall>j<k. pass_status (passes w j) = ESP_OK"
        using least k(1) by (meson less_trans)
      have "returned (run w n) = Some (pass_status (passes w k))"
        using True before k(2) k(1) by (rule run_first_failure)
      then have "r = pass_status (passes w k)" using ret by (simp add: stream_handler_def)
      then show "(r_set_type w \<noteq> ESP_OK \<and> r = r_set_type w) \<or>
        (r_set_type w = ESP_OK \<and>
         (\<exists>k<n. (\<forall>j<k. pass_status (passes w j) = ESP_OK) \<and>
                pass_status (passes w k) \<noteq> ESP_OK \<and> r = pass_status (passes w k)))"
        using True k before by blast
    next
      assume "(r_set_type w \<noteq> ESP_OK \<and> r = r_set_type w) \<or>
        (r_set_type w = ESP_OK \<and>
         (\<exists>k<n. (\<forall>j<k. pass_status (passes w j) = ESP_OK) \<and>
                pass_status (passes w k) \<noteq> ESP_OK \<and> r = pass_status (passes w k)))"
      then obtain k where "k < n" "\<forall>j<k. pass_status (passes w j) = ESP_OK"
        "pass_status (passes w k) \<noteq> ESP_OK" "r = pass_status (passes w k)"
        using True by blast
      then show "stream_handler w n = Some r"
        using True by (simp add: stream_handler_def run_first_failure)
    qed
  qed
  then show ?thesis using never_ok by blast
qed

theorem handler_returns_only_failure_witness:
  "stream_handler sample_world 3 = Some ESP_FAIL \<and> ESP_FAIL \<noteq> ESP_OK \<and>
   stream_handler sample_world 2 = None \<and>
   stream_handler set_type_fail_world 0 = Some 45060"
proof -
  have pre: "\<forall>j<2. pass_status (passes sample_world j) = ESP_OK"
    using sample_passes_ok by (simp add: less_Suc_eq numeral_2_eq_2)
  have "\<exists>k<3. (\<forall>j<k. pass_status (passes sample_world j) = ESP_OK) \<and>
      pass_status (passes sample_world k) \<noteq> ESP_OK \<and>
      ESP_FAIL = pass_status (passes sample_world k)"
    using pre sample_passes_ok(3) ESP_FAIL_not_OK by (intro exI [of _ 2]) simp
  then have a: "stream_handler sample_world 3 = Some ESP_FAIL" "ESP_FAIL \<noteq> ESP_OK"
    using handler_returns_only_failure [of sample_world 3 ESP_FAIL] sample_set_type
    by blast+
  have b: "stream_handler sample_world 2 = None"
    using pre sample_set_type by (simp add: stream_handler_def run_all_ok del: run.simps)
  have "r_set_type set_type_fail_world \<noteq> ESP_OK \<and> (45060::int) = r_set_type set_type_fail_world"
    by (simp add: set_type_fail_world_def ESP_OK_def)
  then have c: "stream_handler set_type_fail_world 0 = Some 45060"
    using handler_returns_only_failure [of set_type_fail_world 0 45060] by blast
  show ?thesis using a b c by simp
qed

lemma part_calls_chunks: "filter is_send_chunk (part_calls pb pl ts e) = part_calls pb pl ts e"
  by (simp add: part_calls_def)

lemma pass_calls_chunks:
  "filter is_send_chunk (pass_calls pb e) =
     (case r_fb_get e of
        None \<Rightarrow> []
      | Some f \<Rightarrow> if payload_ready e then part_calls pb (payload_of e) (timestamp f) e else [])"
  by (simp add: pass_calls_def part_calls_chunks payload_ready_def payload_of_def
      split: option.split frame2jpg_result.split)

lemma run_trace_prefix: "\<exists>evs. trace (run w n) = trace (handler_entry w) @ evs"
proof (induction n)
  case 0
  show ?case by simp
next
  case (Suc n)
  then obtain evs where evs: "trace (run w n) = trace (handler_entry w) @ evs" by blast
  show ?case
  proof (cases "returned (run w n)")
    case None
    from run_Suc_trace [OF None] evs show ?thesis by simp
  next
    case (Some r)
    then show ?thesis using evs by simp
  qed
qed

lemma pass_calls_no_set_type: "RespSetType t r \<notin> set (pass_calls pb e)"
  by (simp add: pass_calls_def part_calls_def split: option.split frame2jpg_result.split)

lemma run_set_type_calls:
  "RespSetType t r \<in> set (trace (run w n)) \<Longrightarrow> t = STREAM_CONTENT_TYPE"
proof (induction n)
  case 0
  then show ?case by (simp add: entry_trace split: if_splits)
next
  case (Suc n)
  show ?case
  proof (cases "returned (run w n)")
    case None
    from Suc.prems run_Suc_trace [OF None] Suc.IH show ?thesis
      by (auto simp add: pass_calls_no_set_type simp del: run.simps split: if_splits)
  next
    case (Some r)
    then show ?thesis using Suc by simp
  qed
qed

text \<open>
  C8, as stated, fails: the content type of the claim has a space after the
  semicolon, the one the handler sets has none. In the whole run of the sample
  request no call of \<^verbatim>\<open>httpd_resp_set_type\<close> passes the string of the claim.
\<close>

theorem content_type_with_space_counterexample:
  "RespSetType ''multipart/x-mixed-replace; boundary=123456789000000000000987654321'' ESP_OK
     \<notin> set (trace (run sample_world 3))"
proof
  assume "RespSetType ''multipart/x-mixed-replace; boundary=123456789000000000000987654321''
    ESP_OK \<in> set (trace (run sample_world 3))"
  then have "''multipart/x-mixed-replace; boundary=123456789000000000000987654321'' =
    STREAM_CONTENT_TYPE"
    by (rule run_set_type_calls)
  then show False by (simp add: STREAM_CONTENT_TYPE_def PART_BOUNDARY_def)
qed

text \<open>
  C8, amended. The first call of the handler is \<^verbatim>\<open>httpd_resp_set_type\<close> with
  \<^verbatim>\<open>multipart/x-mixed-replace;boundary=123456789000000000000987654321\<close> (no
  space after the semicolon). If that call succeeds, the next two calls set
  \<^verbatim>\<open>Access-Control-Allow-Origin: *\<close> and \<^verbatim>\<open>X-Framerate: 60\<close>. If it fails, the
  handler returns that status at once: the trace never holds another call, so no
  chunk is written.
\<close>

theorem preamble_sets_type_and_headers:
  "STREAM_CONTENT_TYPE = ''multipart/x-mixed-replace;boundary=123456789000000000000987654321'' \<and>
   (if r_set_type w = ESP_OK
    then take 3 (trace (run w n)) =
           [RespSetType STREAM_CONTENT_TYPE ESP_OK,
            RespSetHdr ''Access-Control-Allow-Origin'' ''*'',
            RespSetHdr ''X-Framerate'' ''60'']
    else stream_handler w n = Some (r_set_type w) \<and>
         trace (run w n) = [RespSetType STREAM_CONTENT_TYPE (r_set_type w)] \<and>
         filter is_send_chunk (trace (run w n)) = [])"
proof -
  have name: "STREAM_CONTENT_TYPE =
      ''multipart/x-mixed-replace;boundary=123456789000000000000987654321''"
    by (simp add: STREAM_CONTENT_TYPE_def PART_BOUNDARY_def)
  obtain evs where evs: "trace (run w n) = trace (handler_entry w) @ evs"
    using run_trace_prefix by blast
  show ?thesis
  proof (cases "r_set_type w = ESP_OK")
    case True
    then show ?thesis using name evs by (simp add: entry_trace)
  next
    case False
    then show ?thesis
      using name
      by (simp add: stream_handler_def run_set_type_failed entry_trace entry_returned)
  qed
qed

theorem preamble_sets_type_and_headers_witness:
  "r_set_type sample_world = ESP_OK \<and>
   take 3 (trace (run sample_world 3)) =
     [RespSetType ''multipart/x-mixed-replace;boundary=123456789000000000000987654321'' ESP_OK,
      RespSetHdr ''Access-Control-Allow-Origin'' ''*'',
      RespSetHdr ''X-Framerate'' ''60''] \<and>
   r_set_type set_type_fail_world = 45060 \<and>
   stream_handler set_type_fail_world 3 = Some 45060 \<and>
   trace (run set_type_fail_world 3) =
     [RespSetType ''multipart/x-mixed-replace;boundary=123456789000000000000987654321'' 45060]"
proof -
  have a: "r_set_type sample_world = ESP_OK" by (rule sample_set_type)
  have b: "r_set_type set_type_fail_world = 45060" "r_set_type set_type_fail_world \<noteq> ESP_OK"
    by (simp_all add: set_type_fail_world_def ESP_OK_def)
  show ?thesis
    using a b preamble_sets_type_and_headers [of sample_world 3]
      preamble_sets_type_and_headers [of set_type_fail_world 3]
    by (simp del: run.simps)
qed

text \<open>
  C5. In every pass the chunk writes are, in this order: the boundary, written
  only if a frame was acquired and (when needed) encoded; the header, written only
  if the boundary write returned \<^verbatim>\<open>ESP_OK\<close>; the payload, written only if the
  header write returned \<^verbatim>\<open>ESP_OK\<close>. There is no other chunk write in the pass.
\<close>

theorem chunk_writes_in_order:
  assumes "returned (run w k) = None"
  shows "\<exists>pb hlen. filter is_send_chunk (pass_events w k) =
     (if \<not> payload_ready (passes w k) then []
      else SendChunk (StrLit STREAM_BOUNDARY) (length STREAM_BOUNDARY)
             (r_send_boundary (passes w k)) #
        (if r_send_boundary (passes w k) \<noteq> ESP_OK then []
         else SendChunk (StackBuf pb) hlen (r_send_header (passes w k)) #
           (if r_send_header (passes w k) \<noteq> ESP_OK then []
            else [SendChunk (HeapBuf (fst (payload_of (passes w k))))
                    (snd (payload_of (passes w k))) (r_send_payload (passes w k))])))"
proof (cases "r_fb_get (passes w k)")
  case None
  then show ?thesis
    using assms by (simp add: pass_events_calls pass_calls_chunks payload_ready_def)
next
  case (Some f)
  let ?h = "STREAM_PART (snd (payload_of (passes w k))) (tv_sec (timestamp f))
    (tv_usec (timestamp f))"
  show ?thesis
    using assms Some
    by (intro exI [of _ "fst (snprintf (part_buf (run w k)) 128 ?h)"]
        exI [of _ "snd (snprintf (part_buf (run w k)) 128 ?h)"])
      (simp add: pass_events_calls pass_calls_chunks part_calls_def)
qed


lemma sample_pass0:
  "returned (run sample_world 0) = None" "r_fb_get (passes sample_world 0) = Some jpeg_frame"
  "format jpeg_frame = PIXFORMAT_JPEG" "payload_ready (passes sample_world 0)"
  "r_send_boundary (passes sample_world 0) = ESP_OK"
  "r_send_header (passes sample_world 0) = ESP_OK"
  "r_send_payload (passes sample_world 0) = ESP_OK"
  "payload_of (passes sample_world 0) = (Some 4096, 1200)"
  "timestamp jpeg_frame = \<lparr>tv_sec = 12, tv_usec = 345\<rparr>"
  by (simp_all add: entry_returned sample_world_def all_ok_def jpeg_frame_def
      payload_ready_def payload_of_def)

theorem chunk_writes_in_order_witness:
  "returned (run sample_world 0) = None \<and> payload_ready (passes sample_world 0) \<and>
   r_send_boundary (passes sample_world 0) = ESP_OK \<and>
   r_send_header (passes sample_world 0) = ESP_OK \<and>
   length (filter is_send_chunk (pass_events sample_world 0)) = 3 \<and>
   hd (filter is_send_chunk (pass_events sample_world 0)) =
     SendChunk (StrLit STREAM_BOUNDARY) (length STREAM_BOUNDARY) ESP_OK \<and>
   last (filter is_send_chunk (pass_events sample_world 0)) =
     SendChunk (HeapBuf (Some 4096)) 1200 ESP_OK"
proof -
  obtain pb hlen where "filter is_send_chunk (pass_events sample_world 0) =
      [SendChunk (StrLit STREAM_BOUNDARY) (length STREAM_BOUNDARY) ESP_OK,
       SendChunk (StackBuf pb) hlen ESP_OK,
       SendChunk (HeapBuf (Some 4096)) 1200 ESP_OK]"
    using chunk_writes_in_order [OF sample_pass0(1)] by (auto simp add: sample_pass0)
  then show ?thesis by (simp add: sample_pass0 del: run.simps)
qed

text \<open>
  C3. In a pass that acquires a frame that is not JPEG, the first three calls are
  \<^verbatim>\<open>esp_camera_fb_get\<close>, \<^verbatim>\<open>frame2jpg\<close> on that frame with quality 80, and
  \<^verbatim>\<open>esp_camera_fb_return\<close> of that frame, whatever the encoder answers, and the
  encoder is called once. If the encoder fails these are all the calls of the pass
  (no chunk is written) and the handler returns \<^verbatim>\<open>ESP_FAIL\<close> at the end of it.
\<close>

theorem raw_frame_encoded_and_returned:
  assumes "returned (run w k) = None"
    and "r_fb_get (passes w k) = Some f"
    and "format f \<noteq> PIXFORMAT_JPEG"
  shows "take 3 (pass_events w k) =
       [FbGet (Some f), Frame2Jpg f 80 (r_frame2jpg (passes w k)), FbReturn f] \<and>
     filter is_frame2jpg (pass_events w k) = [Frame2Jpg f 80 (r_frame2jpg (passes w k))] \<and>
     (r_frame2jpg (passes w k) = EncodeFailed \<longrightarrow>
        pass_events w k = [FbGet (Some f), Frame2Jpg f 80 EncodeFailed, FbReturn f] \<and>
        filter is_send_chunk (pass_events w k) = [] \<and>
        stream_handler w (Suc k) = Some ESP_FAIL \<and> ESP_FAIL \<noteq> ESP_OK)"
proof -
  have ev: "pass_events w k = pass_calls (part_buf (run w k)) (passes w k)"
    using assms(1) by (rule pass_events_calls)
  have first: "take 3 (pass_events w k) =
      [FbGet (Some f), Frame2Jpg f 80 (r_frame2jpg (passes w k)), FbReturn f]"
    using assms(2,3) by (simp add: ev pass_calls_def split: frame2jpg_result.split)
  have once: "filter is_frame2jpg (pass_events w k) =
      [Frame2Jpg f 80 (r_frame2jpg (passes w k))]"
    using assms(2,3)
    by (simp add: ev pass_calls_def part_calls_def split: frame2jpg_result.split)
  have failed: "pass_events w k = [FbGet (Some f), Frame2Jpg f 80 EncodeFailed, FbReturn f] \<and>
      filter is_send_chunk (pass_events w k) = [] \<and>
      stream_handler w (Suc k) = Some ESP_FAIL \<and> ESP_FAIL \<noteq> ESP_OK"
    if enc: "r_frame2jpg (passes w k) = EncodeFailed"
  proof -
    have "pass_status (passes w k) = ESP_FAIL"
      using assms(2,3) enc by (simp add: pass_status_def payload_ready_def)
    then have "stream_handler w (Suc k) = Some ESP_FAIL"
      using run_Suc_returned [OF assms(1)] ESP_FAIL_not_OK
      by (simp add: stream_handler_def del: run.simps)
    then show ?thesis
      using assms(2,3) enc ESP_FAIL_not_OK by (simp add: ev pass_calls_def)
  qed
  show ?thesis using first once failed by blast
qed

lemma encode_fail_pass0:
  "returned (run encode_fail_world 0) = None"
  "r_fb_get (passes encode_fail_world 0) = Some raw_frame"
  "format raw_frame \<noteq> PIXFORMAT_JPEG"
  "r_frame2jpg (passes encode_fail_world 0) = EncodeFailed"
  by (simp_all add: entry_returned encode_fail_world_def sample_world_def all_ok_def
      raw_frame_def)

theorem raw_frame_encoded_and_returned_witness:
  "returned (run encode_fail_world 0) = None \<and>
   r_fb_get (passes encode_fail_world 0) = Some raw_frame \<and>
   format raw_frame \<noteq> PIXFORMAT_JPEG \<and>
   r_frame2jpg (passes encode_fail_world 0) = EncodeFailed \<and>
   pass_events encode_fail_world 0 =
     [FbGet (Some raw_frame), Frame2Jpg raw_frame 80 EncodeFailed, FbReturn raw_frame] \<and>
   stream_handler encode_fail_world (Suc 0) = Some ESP_FAIL"
  using raw_frame_encoded_and_returned [OF encode_fail_pass0(1,2,3)] encode_fail_pass0
  by (simp del: run.simps)

text \<open>
  C4. In a pass that acquires a frame that is JPEG already, \<^verbatim>\<open>frame2jpg\<close> is not
  called; the calls are \<^verbatim>\<open>esp_camera_fb_get\<close>, the chunk writes, and last of all
  \<^verbatim>\<open>esp_camera_fb_return\<close> of the frame. Every payload write of the pass is
  handed the frame's own \<^verbatim>\<open>buf\<close> and \<^verbatim>\<open>len\<close>, and the payload is written as
  soon as the boundary and header writes succeed.
\<close>

theorem jpeg_frame_passed_through:
  assumes "returned (run w k) = None"
    and "r_fb_get (passes w k) = Some f"
    and "format f = PIXFORMAT_JPEG"
  shows "filter is_frame2jpg (pass_events w k) = [] \<and>
     pass_events w k =
       [FbGet (Some f)] @ filter is_send_chunk (pass_events w k) @ [FbReturn f] \<and>
     (\<forall>p n r. SendChunk (HeapBuf p) n r \<in> set (pass_events w k) \<longrightarrow>
        p = Some (buf f) \<and> n = len f) \<and>
     (r_send_boundary (passes w k) = ESP_OK \<and> r_send_header (passes w k) = ESP_OK \<longrightarrow>
        SendChunk (HeapBuf (Some (buf f))) (len f) (r_send_payload (passes w k))
          \<in> set (pass_events w k))"
proof -
  have ev: "pass_events w k =
      [FbGet (Some f)] @
      part_calls (part_buf (run w k)) (Some (buf f), len f) (timestamp f) (passes w k) @
      [FbReturn f]"
    using assms by (simp add: pass_events_calls pass_calls_def)
  have "filter is_frame2jpg (pass_events w k) = []"
    by (simp add: ev part_calls_def)
  moreover have "pass_events w k =
      [FbGet (Some f)] @ filter is_send_chunk (pass_events w k) @ [FbReturn f]"
    by (subst (2) ev) (simp add: part_calls_chunks ev)
  moreover have "\<forall>p n r. SendChunk (HeapBuf p) n r \<in> set (pass_events w k) \<longrightarrow>
      p = Some (buf f) \<and> n = len f"
    by (auto simp add: ev part_calls_def split: if_splits)
  moreover have "r_send_boundary (passes w k) = ESP_OK \<and>
      r_send_header (passes w k) = ESP_OK \<longrightarrow>
      SendChunk (HeapBuf (Some (buf f))) (len f) (r_send_payload (passes w k))
        \<in> set (pass_events w k)"
    by (simp add: ev part_calls_def)
  ultimately show ?thesis by blast
qed

theorem jpeg_frame_passed_through_witness:
  "returned (run sample_world 0) = None \<and>
   r_fb_get (passes sample_world 0) = Some jpeg_frame \<and>
   format jpeg_frame = PIXFORMAT_JPEG \<and>
   r_send_boundary (passes sample_world 0) = ESP_OK \<and>
   r_send_header (passes sample_world 0) = ESP_OK \<and>
   buf jpeg_frame = 4096 \<and> len jpeg_frame = 1200 \<and>
   SendChunk (HeapBuf (Some 4096)) 1200 ESP_OK \<in> set (pass_events sample_world 0) \<and>
   filter is_frame2jpg (pass_events sample_world 0) = [] \<and>
   last (pass_events sample_world 0) = FbReturn jpeg_frame"
proof -
  have fields: "buf jpeg_frame = 4096" "len jpeg_frame = 1200"
    by (simp_all add: jpeg_frame_def)
  note inst = jpeg_frame_passed_through [OF sample_pass0(1,2,3)]
  have "last (pass_events sample_world 0) = FbReturn jpeg_frame"
    using inst by (metis append_assoc last_snoc)
  then show ?thesis
    using inst sample_pass0 fields by (simp del: run.simps)
qed

lemma part_calls_failed_last:
  assumes "SendChunk c n r \<in> set (part_calls pb pl ts e)" and "r \<noteq> ESP_OK"
  shows "part_calls pb pl ts e = butlast (part_calls pb pl ts e) @ [SendChunk c n r] \<and>
     (if r_send_boundary e \<noteq> ESP_OK then r_send_boundary e
      else if r_send_header e \<noteq> ESP_OK then r_send_header e
      else r_send_payload e) = r"
  using assms by (auto simp add: part_calls_def split: if_splits)

lemma pass_calls_ready:
  "payload_ready e \<Longrightarrow> r_fb_get e = Some f \<Longrightarrow> held_release e = Some rel \<Longrightarrow>
   pass_calls pb e = acquire_calls e @ part_calls pb (payload_of e) (timestamp f) e @ [rel]"
  by (auto simp add: pass_calls_def acquire_calls_def payload_ready_def payload_of_def
      held_release_def split: frame2jpg_result.splits)

lemma pass_calls_not_ready:
  "\<not> payload_ready e \<Longrightarrow> pass_calls pb e = acquire_calls e"
  by (auto simp add: pass_calls_def acquire_calls_def payload_ready_def
      split: option.splits frame2jpg_result.splits)

lemma acquire_calls_no_chunk: "SendChunk c n r \<notin> set (acquire_calls e)"
  by (simp add: acquire_calls_def split: option.split)

lemma held_release_ready:
  "payload_ready e \<Longrightarrow> \<exists>f rel. r_fb_get e = Some f \<and> held_release e = Some rel \<and>
     (rel = FbReturn f \<or> (\<exists>p. rel = Free p))"
  by (auto simp add: payload_ready_def held_release_def
      split: option.splits frame2jpg_result.splits)

text \<open>
  C6. If a chunk write of a pass does not return \<^verbatim>\<open>ESP_OK\<close>, the very next call
  gives back the buffer that is held (\<^verbatim>\<open>esp_camera_fb_return\<close> of the JPEG frame,
  or \<^verbatim>\<open>free\<close> of the encoder's buffer) and is the last call the handler ever
  makes; the handler returns the status of the failed write; and the calls made
  before this pass are still the beginning of the trace.
\<close>

theorem failed_write_releases_and_returns:
  assumes "returned (run w k) = None"
    and "SendChunk c n r \<in> set (pass_events w k)"
    and "r \<noteq> ESP_OK"
  shows "\<exists>pre rel. pass_events w k = pre @ [SendChunk c n r, rel] \<and>
     held_release (passes w k) = Some rel \<and> (is_fb_return rel \<or> is_free rel) \<and>
     stream_handler w (Suc k) = Some r \<and>
     trace (run w (Suc k)) = trace (run w k) @ pass_events w k \<and>
     trace (run w (Suc k + m)) = trace (run w (Suc k))"
proof -
  let ?e = "passes w k"
  let ?pb = "part_buf (run w k)"
  have ev: "pass_events w k = pass_calls ?pb ?e"
    using assms(1) by (rule pass_events_calls)
  have ready: "payload_ready ?e"
  proof (rule ccontr)
    assume "\<not> payload_ready ?e"
    then have "pass_events w k = acquire_calls ?e"
      by (simp add: ev pass_calls_not_ready)
    then show False using assms(2) acquire_calls_no_chunk by simp
  qed
  then obtain f rel where f: "r_fb_get ?e = Some f" and rel: "held_release ?e = Some rel"
    and kind: "rel = FbReturn f \<or> (\<exists>p. rel = Free p)"
    using held_release_ready by blast
  let ?pc = "part_calls ?pb (payload_of ?e) (timestamp f) ?e"
  have calls: "pass_calls ?pb ?e = acquire_calls ?e @ ?pc @ [rel]"
    using ready f rel by (rule pass_calls_ready)
  have "rel \<noteq> SendChunk c n r" using kind by auto
  then have "SendChunk c n r \<in> set ?pc"
    using assms(2) acquire_calls_no_chunk by (auto simp add: ev calls)
  from part_calls_failed_last [OF this assms(3)]
  have last: "?pc = butlast ?pc @ [SendChunk c n r]"
    and status: "pass_status ?e = r"
    using ready by (simp_all add: pass_status_def)
  have shape: "pass_events w k = (acquire_calls ?e @ butlast ?pc) @ [SendChunk c n r, rel]"
    using last by (simp add: ev calls)
  have ret: "returned (run w (Suc k)) = Some r"
    using run_Suc_returned [OF assms(1)] status assms(3) by (simp del: run.simps)
  have tr: "trace (run w (Suc k)) = trace (run w k) @ pass_events w k"
    using run_Suc_trace [OF assms(1)] status assms(3) by (simp add: ev del: run.simps)
  have "is_fb_return rel \<or> is_free rel" using kind by auto
  then show ?thesis
    using shape rel ret tr run_stable [OF ret, of m]
    by (simp add: stream_handler_def del: run.simps)
qed

lemma send_fail_pass1:
  "returned (run send_fail_world 1) = None"
  "SendChunk (HeapBuf (Some 4096)) 1200 45063 \<in> set (pass_events send_fail_world 1)"
  "(45063::int) \<noteq> ESP_OK"
  "held_release (passes send_fail_world 1) = Some (FbReturn jpeg_frame)"
proof -
  have ok0: "pass_status (passes send_fail_world 0) = ESP_OK"
    by (simp add: send_fail_world_def sample_world_def all_ok_def pass_status_def
        payload_ready_def jpeg_frame_def)
  have "r_set_type send_fail_world = ESP_OK"
    by (simp add: send_fail_world_def sample_world_def)
  then show head: "returned (run send_fail_world 1) = None"
    using ok0 by (simp add: run_all_ok del: run.simps)
  have "passes send_fail_world 1 = all_ok\<lparr>r_send_payload := 45063\<rparr>"
    by (simp add: send_fail_world_def sample_world_def)
  then show "SendChunk (HeapBuf (Some 4096)) 1200 45063 \<in> set (pass_events send_fail_world 1)"
    unfolding pass_events_calls [OF head]
    by (simp add: pass_calls_def part_calls_def all_ok_def jpeg_frame_def del: run.simps)
  show "(45063::int) \<noteq> ESP_OK" by (simp add: ESP_OK_def)
  show "held_release (passes send_fail_world 1) = Some (FbReturn jpeg_frame)"
    by (simp add: held_release_def send_fail_world_def sample_world_def all_ok_def
        jpeg_frame_def)
qed

theorem failed_write_releases_and_returns_witness:
  "returned (run send_fail_world 1) = None \<and>
   SendChunk (HeapBuf (Some 4096)) 1200 45063 \<in> set (pass_events send_fail_world 1) \<and>
   (45063::int) \<noteq> ESP_OK \<and>
   take 2 (rev (pass_events send_fail_world 1)) =
     [FbReturn jpeg_frame, SendChunk (HeapBuf (Some 4096)) 1200 45063] \<and>
   stream_handler send_fail_world 2 = Some 45063 \<and>
   trace (run send_fail_world 2) = trace (run send_fail_world 1) @ pass_events send_fail_world 1"
proof -
  obtain pre rel where
    "pass_events send_fail_world 1 = pre @ [SendChunk (HeapBuf (Some 4096)) 1200 45063, rel]"
    "held_release (passes send_fail_world 1) = Some rel"
    "stream_handler send_fail_world (Suc 1) = Some 45063"
    "trace (run send_fail_world (Suc 1)) =
       trace (run send_fail_world 1) @ pass_events send_fail_world 1"
    using failed_write_releases_and_returns [OF send_fail_pass1(1,2,3), of 0] by blast
  then show ?thesis
    using send_fail_pass1 by (simp add: numeral_2_eq_2 del: run.simps)
qed

subsection \<open>Formatting\<close>

lemma digit_value_digit_char: "d < 10 \<Longrightarrow> digit_value (digit_char d) = d"
  by (simp add: digit_value_def digit_char_def)

lemma digit_char_0: "digit_char 0 = CHR ''0''"
  by code_simp

lemma read_dec_snoc: "read_dec (s @ [c]) = 10 * read_dec s + digit_value c"
  by (simp add: read_dec_def)

lemma read_dec_dec_digits: "read_dec (dec_digits n) = n"
proof (induction n rule: dec_digits.induct)
  case (1 n)
  show ?case
  proof (cases "n < 10")
    case True
    then show ?thesis
      by (simp add: dec_digits.simps [of n] read_dec_def digit_value_digit_char)
  next
    case False
    then have "read_dec (dec_digits (n div 10)) = n div 10" using 1 by simp
    then show ?thesis
      using False
      by (simp add: dec_digits.simps [of n] read_dec_snoc digit_value_digit_char)
  qed
qed

lemma length_fixed_digits: "length (fixed_digits k n) = k"
  by (induction k arbitrary: n) simp_all

lemma read_dec_fixed_digits: "read_dec (fixed_digits k n) = n mod 10 ^ k"
proof (induction k arbitrary: n)
  case 0
  show ?case by (simp add: read_dec_def)
next
  case (Suc k)
  have "n mod (10 * 10 ^ k) = 10 * (n div 10 mod 10 ^ k) + n mod 10"
    by (rule mod_mult2_eq)
  then show ?case
    by (simp add: read_dec_snoc Suc digit_value_digit_char)
qed

lemma fixed_digits_0: "fixed_digits k 0 = replicate k (CHR ''0'')"
  by (induction k) (simp_all add: digit_char_0 replicate_append_same)

lemma zero_padded:
  "n < 10 ^ k \<Longrightarrow> 0 < k \<Longrightarrow>
   replicate (k - length (dec_digits n)) (CHR ''0'') @ dec_digits n = fixed_digits k n"
proof (induction k arbitrary: n)
  case 0
  then show ?case by simp
next
  case (Suc k)
  show ?case
  proof (cases "n < 10")
    case True
    then show ?thesis
      by (simp add: dec_digits.simps [of n] fixed_digits_0)
  next
    case False
    then have k: "0 < k" using Suc.prems(1) by (cases k) simp_all
    have "n div 10 < 10 ^ k" using Suc.prems(1) by (simp add: less_mult_imp_div_less mult.commute)
    then have "replicate (k - length (dec_digits (n div 10))) (CHR ''0'') @
        dec_digits (n div 10) = fixed_digits k (n div 10)"
      using k by (rule Suc.IH)
    then show ?thesis
      using False by (simp add: dec_digits.simps [of n])
  qed
qed

lemma length_dec_digits: "n < 10 ^ k \<Longrightarrow> 0 < k \<Longrightarrow> length (dec_digits n) \<le> k"
proof -
  assume "n < 10 ^ k" and "0 < k"
  then have "length (replicate (k - length (dec_digits n)) (CHR ''0'') @ dec_digits n) = k"
    by (simp only: zero_padded length_fixed_digits)
  moreover have "0 < length (dec_digits n)"
    by (subst dec_digits.simps) simp
  ultimately show ?thesis by (simp split: if_splits)
qed

lemma printf_06d_usec:
  assumes "0 \<le> u" and "u < 1000000"
  shows "printf_06d u = fixed_digits 6 (nat u)"
proof -
  have "nat u < 10 ^ 6" using assms by simp
  then have "replicate (6 - length (dec_digits (nat u))) (CHR ''0'') @ dec_digits (nat u) =
      fixed_digits 6 (nat u)"
    by (rule zero_padded) simp
  then show ?thesis using assms(1) by (simp add: printf_06d_def Let_def)
qed

lemma snprintf_length: "snd (snprintf dst cap s) = length s"
  by (simp add: snprintf_def Let_def)

lemma snprintf_fits:
  "length s < cap \<Longrightarrow> take (length s) (fst (snprintf dst cap s)) = s"
  by (simp add: snprintf_def Let_def)

lemma snprintf_stored:
  "0 < cap \<Longrightarrow> take (min (length s) (cap - 1)) (fst (snprintf dst cap s)) = take (cap - 1) s"
  by (simp add: snprintf_def Let_def min_def)

lemma drop_overwritten:
  "length stored \<le> cap \<Longrightarrow> drop cap (stored @ drop (length stored) dst) = drop cap dst"
  by simp

lemma snprintf_rest: "drop cap (fst (snprintf dst cap s)) = drop cap dst"
proof (cases "cap = 0")
  case True
  then show ?thesis by (simp add: snprintf_def)
next
  case False
  then have "length (take (cap - 1) s @ [NUL]) \<le> cap" by simp
  then have "drop cap ((take (cap - 1) s @ [NUL]) @
      drop (length (take (cap - 1) s @ [NUL])) dst) = drop cap dst"
    by (rule drop_overwritten)
  then show ?thesis using False by (simp add: snprintf_def Let_def)
qed


lemma entry_part_buf: "part_buf (handler_entry w) = stack_part_buf w"
  by (simp add: handler_entry_def call_def Let_def)

lemma loop_body_part_buf_rest:
  "drop 128 (part_buf (loop_body e s)) = drop 128 (part_buf s)"
  by (simp add: loop_body_def release_keeps payload_keeps header_part_buf boundary_keeps
      acquire_keeps snprintf_rest)

lemma run_part_buf_rest: "drop 128 (part_buf (run w n)) = drop 128 (stack_part_buf w)"
proof (induction n)
  case 0
  show ?case by (simp add: entry_part_buf)
next
  case (Suc n)
  then show ?case
    by (simp add: loop_pass_def Let_def call_def loop_body_part_buf_rest split: option.split)
qed

lemma length_printf_u: "n < 2 ^ 64 \<Longrightarrow> length (printf_u n) \<le> 20"
proof -
  assume "n < 2 ^ 64"
  then have "n < 10 ^ 20" by simp
  then show ?thesis unfolding printf_u_def by (rule length_dec_digits) simp
qed

lemma length_dec_digits_63: "\<bar>i\<bar> \<le> 2 ^ 63 \<Longrightarrow> length (dec_digits (nat \<bar>i\<bar>)) \<le> 19"
proof -
  assume "\<bar>i\<bar> \<le> 2 ^ 63"
  then have "nat \<bar>i\<bar> < 10 ^ 19" by simp
  then show ?thesis by (rule length_dec_digits) simp
qed

lemma length_printf_d: "\<bar>i\<bar> \<le> 2 ^ 63 \<Longrightarrow> length (printf_d i) \<le> 20"
  using length_dec_digits_63 [of i]
  by (cases "i < 0") (simp_all add: printf_d_def abs_if)

lemma length_printf_06d: "\<bar>i\<bar> \<le> 2 ^ 63 \<Longrightarrow> length (printf_06d i) \<le> 20"
  using length_dec_digits_63 [of i]
  by (cases "i < 0") (simp_all add: printf_06d_def Let_def)

text \<open>
  With arguments of any C integer type of at most 64 bits the formatted header is
  at most 122 characters long: it fits the 128 bytes \<^verbatim>\<open>snprintf\<close> may use.
\<close>

lemma STREAM_PART_fits:
  assumes "n < 2 ^ 64" and "\<bar>sec\<bar> \<le> 2 ^ 63" and "\<bar>usec\<bar> \<le> 2 ^ 63"
  shows "length (STREAM_PART n sec usec) \<le> 122"
  using length_printf_u [OF assms(1)] length_printf_d [OF assms(2)]
    length_printf_06d [OF assms(3)]
  by (simp add: STREAM_PART_def)


lemma payload_write_reached:
  "SendChunk (HeapBuf p) n r \<in> set (pass_calls pb e) \<Longrightarrow>
   \<exists>f. r_fb_get e = Some f \<and> payload_ready e \<and> r_send_boundary e = ESP_OK \<and>
     r_send_header e = ESP_OK \<and> payload_of e = (p, n) \<and> r = r_send_payload e"
  by (auto simp add: pass_calls_def part_calls_def payload_ready_def payload_of_def
      split: option.splits if_splits frame2jpg_result.splits)

lemma header_write_reached:
  "SendChunk (StackBuf b) hlen r \<in> set (pass_calls pb e) \<Longrightarrow>
   \<exists>f. r_fb_get e = Some f \<and> payload_ready e \<and> r_send_boundary e = ESP_OK \<and>
     (b, hlen) = snprintf pb 128 (STREAM_PART (snd (payload_of e)) (tv_sec (timestamp f))
       (tv_usec (timestamp f))) \<and>
     r = r_send_header e"
  by (auto simp add: pass_calls_def part_calls_def payload_ready_def payload_of_def
      split: option.splits if_splits frame2jpg_result.splits)

text \<open>
  C1. In every pass that reaches the payload write, with \<open>n\<close> the length handed
  to that write and \<open>f\<close> the frame of the pass: the chunk writes of the pass are the
  boundary, the header and the payload; the header is what \<^verbatim>\<open>snprintf\<close> stores in
  \<^verbatim>\<open>part_buf\<close> for \<^verbatim>\<open>_STREAM_PART\<close> with the same \<open>n\<close> and the timestamp of
  \<open>f\<close>; its \<^verbatim>\<open>Content-Length\<close> field is the decimal numeral of \<open>n\<close>; its
  \<^verbatim>\<open>X-Timestamp\<close> field is the seconds, a dot, and the microseconds, which for
  microseconds from 0 to 999999 are exactly six digits, zeros in front. When the
  formatted header is shorter than 128 characters (\<open>STREAM_PART_fits\<close>: always, for
  integers of at most 64 bits), the bytes of the header chunk are that header.
\<close>

theorem content_length_is_payload_length:
  assumes "returned (run w k) = None"
    and "SendChunk (HeapBuf p) n r \<in> set (pass_events w k)"
  shows "\<exists>f h pb. r_fb_get (passes w k) = Some f \<and>
     h = STREAM_PART n (tv_sec (timestamp f)) (tv_usec (timestamp f)) \<and>
     pb = fst (snprintf (part_buf (run w k)) 128 h) \<and>
     filter is_send_chunk (pass_events w k) =
       [SendChunk (StrLit STREAM_BOUNDARY) (length STREAM_BOUNDARY) ESP_OK,
        SendChunk (StackBuf pb) (length h) ESP_OK,
        SendChunk (HeapBuf p) n r] \<and>
     h = ''Content-Type: image/jpeg'' @ [CR, LF] @
         ''Content-Length: '' @ printf_u n @ [CR, LF] @
         ''X-Timestamp: '' @ printf_d (tv_sec (timestamp f)) @ ''.'' @
           printf_06d (tv_usec (timestamp f)) @ [CR, LF, CR, LF] \<and>
     read_dec (printf_u n) = n \<and>
     (0 \<le> tv_sec (timestamp f) \<longrightarrow>
        read_dec (printf_d (tv_sec (timestamp f))) = nat (tv_sec (timestamp f))) \<and>
     (0 \<le> tv_usec (timestamp f) \<and> tv_usec (timestamp f) < 1000000 \<longrightarrow>
        printf_06d (tv_usec (timestamp f)) = fixed_digits 6 (nat (tv_usec (timestamp f))) \<and>
        length (printf_06d (tv_usec (timestamp f))) = 6 \<and>
        read_dec (printf_06d (tv_usec (timestamp f))) = nat (tv_usec (timestamp f))) \<and>
     (length h < 128 \<longrightarrow> take (length h) pb = h)"
proof -
  let ?e = "passes w k"
  have ev: "pass_events w k = pass_calls (part_buf (run w k)) ?e"
    using assms(1) by (rule pass_events_calls)
  from assms(2) obtain f where f: "r_fb_get ?e = Some f" and ready: "payload_ready ?e"
    and ok: "r_send_boundary ?e = ESP_OK" "r_send_header ?e = ESP_OK"
    and pl: "payload_of ?e = (p, n)" and r: "r = r_send_payload ?e"
    unfolding ev using payload_write_reached by blast
  let ?sec = "tv_sec (timestamp f)"
  let ?usec = "tv_usec (timestamp f)"
  let ?h = "STREAM_PART n ?sec ?usec"
  let ?pb = "fst (snprintf (part_buf (run w k)) 128 ?h)"
  have chunks: "filter is_send_chunk (pass_events w k) =
      [SendChunk (StrLit STREAM_BOUNDARY) (length STREAM_BOUNDARY) ESP_OK,
       SendChunk (StackBuf ?pb) (length ?h) ESP_OK,
       SendChunk (HeapBuf p) n r]"
    using f ready ok pl r
    by (simp add: ev pass_calls_chunks part_calls_def snprintf_length)
  have layout: "?h = ''Content-Type: image/jpeg'' @ [CR, LF] @
      ''Content-Length: '' @ printf_u n @ [CR, LF] @
      ''X-Timestamp: '' @ printf_d ?sec @ ''.'' @ printf_06d ?usec @ [CR, LF, CR, LF]"
    by (simp add: STREAM_PART_def)
  have len: "read_dec (printf_u n) = n"
    by (simp add: printf_u_def read_dec_dec_digits)
  have sec: "0 \<le> ?sec \<longrightarrow> read_dec (printf_d ?sec) = nat ?sec"
    by (simp add: printf_d_def read_dec_dec_digits)
  have usec: "0 \<le> ?usec \<and> ?usec < 1000000 \<longrightarrow>
      printf_06d ?usec = fixed_digits 6 (nat ?usec) \<and> length (printf_06d ?usec) = 6 \<and>
      read_dec (printf_06d ?usec) = nat ?usec"
    by (auto simp add: printf_06d_usec length_fixed_digits read_dec_fixed_digits)
  have fits: "length ?h < 128 \<longrightarrow> take (length ?h) ?pb = ?h"
    by (simp add: snprintf_fits)
  show ?thesis
    using f chunks layout len sec usec fits by blast
qed

lemma sample_header: "STREAM_PART 1200 12 345 =
    ''Content-Type: image/jpeg'' @ [CR, LF] @ ''Content-Length: 1200'' @ [CR, LF] @
    ''X-Timestamp: 12.000345'' @ [CR, LF, CR, LF]"
  by code_simp

lemma sample_header_length: "length (STREAM_PART 1200 12 345) = 74"
  by (simp add: sample_header)

lemma sample_pass0_calls:
  "pass_events sample_world 0 =
     [FbGet (Some jpeg_frame),
      SendChunk (StrLit STREAM_BOUNDARY) (length STREAM_BOUNDARY) ESP_OK,
      SendChunk (StackBuf (fst (snprintf (stack_part_buf sample_world) 128
        (STREAM_PART 1200 12 345)))) 74 ESP_OK,
      SendChunk (HeapBuf (Some 4096)) 1200 ESP_OK,
      FbReturn jpeg_frame]"
proof -
  have "buf jpeg_frame = 4096" "len jpeg_frame = 1200" by (simp_all add: jpeg_frame_def)
  then show ?thesis
    unfolding pass_events_calls [OF sample_pass0(1)]
    by (simp add: pass_calls_def part_calls_def sample_pass0 snprintf_length
        sample_header_length entry_part_buf)
qed

theorem content_length_is_payload_length_witness:
  "returned (run sample_world 0) = None \<and>
   SendChunk (HeapBuf (Some 4096)) 1200 ESP_OK \<in> set (pass_events sample_world 0) \<and>
   filter is_send_chunk (pass_events sample_world 0) =
     [SendChunk (StrLit STREAM_BOUNDARY) (length STREAM_BOUNDARY) ESP_OK,
      SendChunk (StackBuf (fst (snprintf (stack_part_buf sample_world) 128
        (STREAM_PART 1200 12 345)))) 74 ESP_OK,
      SendChunk (HeapBuf (Some 4096)) 1200 ESP_OK] \<and>
   STREAM_PART 1200 12 345 =
     ''Content-Type: image/jpeg'' @ [CR, LF] @ ''Content-Length: 1200'' @ [CR, LF] @
     ''X-Timestamp: 12.000345'' @ [CR, LF, CR, LF] \<and>
   take 74 (fst (snprintf (stack_part_buf sample_world) 128 (STREAM_PART 1200 12 345))) =
     STREAM_PART 1200 12 345"
proof -
  have mem: "SendChunk (HeapBuf (Some 4096)) 1200 ESP_OK \<in> set (pass_events sample_world 0)"
    by (simp add: sample_pass0_calls)
  from content_length_is_payload_length [OF sample_pass0(1) mem]
  obtain f h pb where f: "r_fb_get (passes sample_world 0) = Some f"
    and h: "h = STREAM_PART 1200 (tv_sec (timestamp f)) (tv_usec (timestamp f))"
    and pb: "pb = fst (snprintf (part_buf (run sample_world 0)) 128 h)"
    and chunks: "filter is_send_chunk (pass_events sample_world 0) =
       [SendChunk (StrLit STREAM_BOUNDARY) (length STREAM_BOUNDARY) ESP_OK,
        SendChunk (StackBuf pb) (length h) ESP_OK,
        SendChunk (HeapBuf (Some 4096)) 1200 ESP_OK]"
    and fits: "length h < 128 \<longrightarrow> take (length h) pb = h"
    by blast
  have "f = jpeg_frame" using f sample_pass0(2) by simp
  then have h': "h = STREAM_PART 1200 12 345" using h sample_pass0(9) by simp
  have pb': "pb = fst (snprintf (stack_part_buf sample_world) 128 (STREAM_PART 1200 12 345))"
    using pb h' by (simp add: entry_part_buf)
  have t: "take 74 pb = h"
    using fits by (simp add: h' sample_header_length)
  show ?thesis
  proof (intro conjI)
    show "returned (run sample_world 0) = None" by (rule sample_pass0(1))
    show "SendChunk (HeapBuf (Some 4096)) 1200 ESP_OK \<in> set (pass_events sample_world 0)"
      by (rule mem)
    show "filter is_send_chunk (pass_events sample_world 0) =
      [SendChunk (StrLit STREAM_BOUNDARY) (length STREAM_BOUNDARY) ESP_OK,
       SendChunk (StackBuf (fst (snprintf (stack_part_buf sample_world) 128
         (STREAM_PART 1200 12 345)))) 74 ESP_OK,
       SendChunk (HeapBuf (Some 4096)) 1200 ESP_OK]"
      using chunks by (simp only: h' pb' sample_header_length)
    show "STREAM_PART 1200 12 345 =
      ''Content-Type: image/jpeg'' @ [CR, LF] @ ''Content-Length: 1200'' @ [CR, LF] @
      ''X-Timestamp: 12.000345'' @ [CR, LF, CR, LF]"
      by (rule sample_header)
    show "take 74 (fst (snprintf (stack_part_buf sample_world) 128
        (STREAM_PART 1200 12 345))) = STREAM_PART 1200 12 345"
      using t by (simp only: h' pb')
  qed
qed

text \<open>
  C9. In every pass that reaches the header write, the buffer and the length
  handed to the write are the two results of \<^verbatim>\<open>snprintf(part_buf, 128, ...)\<close>:
  the length is the length of the whole formatted header, with no comparison
  against 128 in between, so it is the full length also when that is 128 or more.
  \<^verbatim>\<open>snprintf\<close> stores at most the first 127 characters and a NUL; from offset 128
  on \<^verbatim>\<open>part_buf\<close> holds what it held before the call, which is what it held
  when the handler was entered.
\<close>

theorem header_length_not_clamped:
  assumes "returned (run w k) = None"
    and "SendChunk (StackBuf pb) hlen r \<in> set (pass_events w k)"
  shows "\<exists>f h. r_fb_get (passes w k) = Some f \<and>
     h = STREAM_PART (snd (payload_of (passes w k))) (tv_sec (timestamp f))
           (tv_usec (timestamp f)) \<and>
     (pb, hlen) = snprintf (part_buf (run w k)) 128 h \<and>
     hlen = length h \<and>
     take (min (length h) 127) pb = take 127 h \<and>
     drop 128 pb = drop 128 (part_buf (run w k)) \<and>
     drop 128 pb = drop 128 (stack_part_buf w)"
proof -
  let ?e = "passes w k"
  have ev: "pass_events w k = pass_calls (part_buf (run w k)) ?e"
    using assms(1) by (rule pass_events_calls)
  from assms(2) obtain f where f: "r_fb_get ?e = Some f"
    and sn: "(pb, hlen) = snprintf (part_buf (run w k)) 128
      (STREAM_PART (snd (payload_of ?e)) (tv_sec (timestamp f)) (tv_usec (timestamp f)))"
    unfolding ev using header_write_reached by blast
  let ?h = "STREAM_PART (snd (payload_of ?e)) (tv_sec (timestamp f)) (tv_usec (timestamp f))"
  have pb: "pb = fst (snprintf (part_buf (run w k)) 128 ?h)"
    and hlen: "hlen = snd (snprintf (part_buf (run w k)) 128 ?h)"
    using sn by (simp_all add: prod_eq_iff)
  have "hlen = length ?h" by (simp add: hlen snprintf_length)
  moreover have "take (min (length ?h) 127) pb = take 127 ?h"
    using snprintf_stored [of 128 ?h "part_buf (run w k)"] by (simp add: pb)
  moreover have rest: "drop 128 pb = drop 128 (part_buf (run w k))"
    by (simp add: pb snprintf_rest)
  moreover have "drop 128 pb = drop 128 (stack_part_buf w)"
    using rest by (simp only: run_part_buf_rest)
  ultimately show ?thesis using f sn by blast
qed


theorem header_length_not_clamped_witness:
  "returned (run sample_world 0) = None \<and>
   SendChunk (StackBuf (fst (snprintf (stack_part_buf sample_world) 128
       (STREAM_PART 1200 12 345)))) 74 ESP_OK \<in> set (pass_events sample_world 0) \<and>
   length (STREAM_PART 1200 12 345) = 74 \<and>
   drop 128 (fst (snprintf (stack_part_buf sample_world) 128 (STREAM_PART 1200 12 345))) =
     drop 128 (stack_part_buf sample_world)"
proof -
  let ?pb = "fst (snprintf (stack_part_buf sample_world) 128 (STREAM_PART 1200 12 345))"
  have mem: "SendChunk (StackBuf ?pb) 74 ESP_OK \<in> set (pass_events sample_world 0)"
    by (simp add: sample_pass0_calls)
  from header_length_not_clamped [OF sample_pass0(1) mem]
  have "drop 128 ?pb = drop 128 (part_buf (run sample_world 0))" by blast
  then have "drop 128 ?pb = drop 128 (stack_part_buf sample_world)"
    by (simp add: entry_part_buf)
  then show ?thesis
    using sample_pass0(1) mem sample_header_length by blast
qed

subsection \<open>Ownership\<close>

lemma owner_run_append:
  "owner_run (xs @ ys) h =
     (case owner_run xs h of None \<Rightarrow> None | Some h' \<Rightarrow> owner_run ys h')"
  by (induction xs arbitrary: h) (simp_all split: option.split)

lemma owner_run_part_calls: "owner_run (part_calls pb pl ts e) h = Some h"
  by (cases h) (simp add: part_calls_def)

lemma owner_run_pass_calls: "owner_run (pass_calls pb e) (None, None) = Some (None, None)"
  by (simp add: pass_calls_def owner_run_append owner_run_part_calls
      split: option.split frame2jpg_result.split)

lemma owner_run_entry: "owner_run (trace (handler_entry w)) (None, None) = Some (None, None)"
  by (simp add: entry_trace)

lemma pass_calls_counts:
  "length (filter is_acquired (pass_calls pb e)) = length (filter is_fb_return (pass_calls pb e))"
  "length (filter is_allocated (pass_calls pb e)) = length (filter is_free (pass_calls pb e))"
  by (simp_all add: pass_calls_def part_calls_def split: option.split frame2jpg_result.split)

lemma run_owner: "owner_run (trace (run w n)) (None, None) = Some (None, None)"
proof (induction n)
  case 0
  show ?case by (simp add: owner_run_entry)
next
  case (Suc n)
  show ?case
  proof (cases "returned (run w n)")
    case None
    show ?thesis
      unfolding run_Suc_trace [OF None]
      by (simp add: owner_run_append Suc owner_run_pass_calls)
  next
    case (Some r)
    then show ?thesis using Suc by simp
  qed
qed

lemma run_counts:
  "length (filter is_acquired (trace (run w n))) =
     length (filter is_fb_return (trace (run w n))) \<and>
   length (filter is_allocated (trace (run w n))) =
     length (filter is_free (trace (run w n)))"
proof (induction n)
  case 0
  show ?case by (simp add: entry_trace)
next
  case (Suc n)
  show ?case
  proof (cases "returned (run w n)")
    case None
    show ?thesis
      unfolding run_Suc_trace [OF None]
      using Suc by (simp add: pass_calls_counts)
  next
    case (Some r)
    then show ?thesis using Suc by simp
  qed
qed

lemma no_frame_trace:
  "trace (run no_frame_world (Suc 0)) =
     [RespSetType STREAM_CONTENT_TYPE ESP_OK,
      RespSetHdr ''Access-Control-Allow-Origin'' ''*'',
      RespSetHdr ''X-Framerate'' ''60'',
      FbGet None]"
proof -
  have st: "r_set_type no_frame_world = ESP_OK"
    by (simp add: no_frame_world_def sample_world_def)
  then have head: "returned (run no_frame_world 0) = None"
    by (simp add: entry_returned)
  have e: "r_fb_get (passes no_frame_world 0) = None"
    by (simp add: no_frame_world_def)
  then have "pass_status (passes no_frame_world 0) = ESP_FAIL"
    by (simp add: pass_status_def payload_ready_def)
  then show ?thesis
    using run_Suc_trace [OF head] st e
    by (simp add: pass_calls_def entry_trace ESP_FAIL_not_OK)
qed

text \<open>
  C2, as stated, fails on the counts: a call of \<^verbatim>\<open>esp_camera_fb_get\<close> that
  returns no frame is an acquire call with nothing to release. In the run of
  \<open>no_frame_world\<close> there is one acquire call and no release or free call.
\<close>

theorem acquire_calls_not_release_calls_counterexample:
  "length (filter is_fb_get (trace (run no_frame_world 1))) = 1 \<and>
   length (filter is_release (trace (run no_frame_world 1))) = 0 \<and>
   length (filter is_fb_get (trace (run no_frame_world 1))) \<noteq>
     length (filter is_release (trace (run no_frame_world 1))) \<and>
   stream_handler no_frame_world 1 = Some ESP_FAIL"
proof -
  have st: "r_set_type no_frame_world = ESP_OK"
    by (simp add: no_frame_world_def sample_world_def)
  then have head: "returned (run no_frame_world 0) = None"
    by (simp add: entry_returned)
  have "pass_status (passes no_frame_world 0) = ESP_FAIL"
    by (simp add: no_frame_world_def pass_status_def payload_ready_def)
  then have "returned (run no_frame_world (Suc 0)) = Some ESP_FAIL"
    using run_Suc_returned [OF head] ESP_FAIL_not_OK by (simp del: run.simps)
  then show ?thesis
    by (simp add: no_frame_trace stream_handler_def del: run.simps)
qed

text \<open>
  C2, amended. After any number of passes, at the head of the loop or after the
  return: the trace respects ownership and ends with nothing held, so every frame
  handed out by \<^verbatim>\<open>esp_camera_fb_get\<close> has been given back by
  \<^verbatim>\<open>esp_camera_fb_return\<close> exactly once and every buffer allocated by
  \<^verbatim>\<open>frame2jpg\<close> has been freed exactly once; the calls of
  \<^verbatim>\<open>esp_camera_fb_get\<close> that returned a frame are as many as the calls of
  \<^verbatim>\<open>esp_camera_fb_return\<close>, and the calls of \<^verbatim>\<open>frame2jpg\<close> that allocated a
  buffer are as many as the calls of \<^verbatim>\<open>free\<close>. The block at the end of a pass
  (lines 99-106) makes one release call if a frame or a buffer is still held and
  none otherwise.
\<close>

theorem every_buffer_released_once:
  "owner_run (trace (run w n)) (None, None) = Some (None, None) \<and>
   length (filter is_acquired (trace (run w n))) =
     length (filter is_fb_return (trace (run w n))) \<and>
   length (filter is_allocated (trace (run w n))) =
     length (filter is_free (trace (run w n))) \<and>
   length (filter is_release (trace (release_buffers s))) =
     length (filter is_release (trace s)) +
       (if fb s = None \<and> jpg_buf s = None then 0 else 1)"
proof -
  have "length (filter is_release (trace (release_buffers s))) =
      length (filter is_release (trace s)) +
        (if fb s = None \<and> jpg_buf s = None then 0 else 1)"
    by (simp add: release_trace split: option.split)
  then show ?thesis using run_owner run_counts by blast
qed


lemma sample_two_passes:
  "returned (run sample_world 2) = None"
  "length (filter is_acquired (trace (run sample_world 2))) = 2"
  "length (filter is_allocated (trace (run sample_world 2))) = 1"
proof -
  have h0: "returned (run sample_world 0) = None" by (rule sample_pass0(1))
  have h1: "returned (run sample_world (Suc 0)) = None"
    using run_Suc_returned [OF h0] sample_passes_ok(1) by (simp del: run.simps)
  have e0: "r_fb_get (passes sample_world 0) = Some jpeg_frame"
    "format jpeg_frame = PIXFORMAT_JPEG"
    by (simp_all add: sample_pass0)
  have e1: "r_fb_get (passes sample_world (Suc 0)) = Some raw_frame"
    "format raw_frame \<noteq> PIXFORMAT_JPEG"
    "r_frame2jpg (passes sample_world (Suc 0)) = Encoded 20480 1300"
    by (simp_all add: sample_world_def all_ok_def raw_frame_def)
  have t2: "trace (run sample_world (Suc (Suc 0))) =
      trace (handler_entry sample_world) @
      pass_calls (part_buf (run sample_world 0)) (passes sample_world 0) @ [TaskDelay] @
      pass_calls (part_buf (run sample_world (Suc 0))) (passes sample_world (Suc 0)) @
      [TaskDelay]"
    using run_Suc_trace [OF h1] run_Suc_trace [OF h0] sample_passes_ok(1,2)
    by (simp del: run.simps) simp
  show "returned (run sample_world 2) = None"
    using run_Suc_returned [OF h1] sample_passes_ok(2)
    by (simp add: numeral_2_eq_2 del: run.simps)
  show "length (filter is_acquired (trace (run sample_world 2))) = 2"
    unfolding numeral_2_eq_2 t2
    by (simp add: entry_trace sample_set_type pass_calls_def part_calls_def e0 e1
        del: run.simps)
  show "length (filter is_allocated (trace (run sample_world 2))) = 1"
    unfolding numeral_2_eq_2 t2
    by (simp add: entry_trace sample_set_type pass_calls_def part_calls_def e0 e1
        del: run.simps)
qed

theorem every_buffer_released_once_witness:
  "returned (run sample_world 2) = None \<and>
   owner_run (trace (run sample_world 2)) (None, None) = Some (None, None) \<and>
   length (filter is_acquired (trace (run sample_world 2))) = 2 \<and>
   length (filter is_fb_return (trace (run sample_world 2))) = 2 \<and>
   length (filter is_allocated (trace (run sample_world 2))) = 1 \<and>
   length (filter is_free (trace (run sample_world 2))) = 1 \<and>
   length (filter is_release
       (trace (release_buffers ((run sample_world 0)\<lparr>fb := Some jpeg_frame\<rparr>)))) =
     length (filter is_release (trace (run sample_world 0))) + 1"
  using every_buffer_released_once
      [of sample_world 2 "(run sample_world 0)\<lparr>fb := Some jpeg_frame\<rparr>"]
    sample_two_passes
  by (simp del: run.simps)

end
